theory Spec2Isabelle
  imports Main "HOL-Library.Multiset" "HOL-Library.Char_ord"
begin

section \<open>Strings of the program\<close>

text \<open>
  A JavaScript string is modelled as a \<open>string\<close>, a list of code units; \<open>length\<close> counts
  code units as \<open>String.prototype.length\<close> does. Code units above \<open>0xFF\<close> are outside
  the model.

  \<open>String.prototype.slice\<close> never raises: an index is taken relative to the end when it
  is negative and is clamped to the bounds of the string.
\<close>

definition rel_index :: "int \<Rightarrow> nat \<Rightarrow> nat" where
  "rel_index i len = (if i < 0 then nat (max (int len + i) 0) else min (nat i) len)"

definition slice :: "string \<Rightarrow> int \<Rightarrow> int \<Rightarrow> string" where
  "slice s start end =
     (let from = rel_index start (length s); to = rel_index end (length s)
      in take (to - from) (drop from s))"

definition slice_from :: "string \<Rightarrow> int \<Rightarrow> string" where
  "slice_from s start = drop (rel_index start (length s)) s"




section \<open>The remote correction client: \<open>correctWithLanguageTool\<close>\<close>

text \<open>
  A finding of the remote service. \<open>replacements\<close> holds the \<open>value\<close> of each candidate, in
  the order of the response; a missing \<open>replacements\<close> field and an empty array are both
  the empty list (the source skips both). The \<open>context\<close> of a finding is only logged.
\<close>

record Match =
  offset :: int
  length_m :: int
  replacements :: "string list"

text \<open>
  One iteration of the loop over the findings (lines 48 to 56 of \<open>app.js\<close>).
\<close>

definition apply_match :: "string \<Rightarrow> Match \<Rightarrow> string" where
  "apply_match correctedText m =
     (if replacements m \<noteq> [] then
        let replacement = hd (replacements m);
            before = slice correctedText 0 (offset m);
            after = slice_from correctedText (offset m + length_m m)
        in before @ replacement @ after
      else correctedText)"

text \<open>
  \<open>matches.sort((a, b) => b.offset - a.offset)\<close>: a stable sort, the larger offset first.
\<close>

definition sort_matches :: "Match list \<Rightarrow> Match list" where
  "sort_matches ms = sort_key (\<lambda>m. - offset m) ms"

definition apply_corrections :: "string \<Rightarrow> Match list \<Rightarrow> string" where
  "apply_corrections text ms = foldl apply_match text (sort_matches ms)"



text \<open>
  What \<open>axios.post\<close> can end in. \<open>Resolved\<close>: a response with a status of success whose body
  holds the findings. \<open>Unreadable\<close>: a response with a status of success whose body holds
  no array \<open>matches\<close>; the promise resolves as before, and reading
  \<open>response.data.matches.length\<close> in line 38, inside the \<open>try\<close> block, raises a
  \<open>TypeError\<close>. \<open>Rejected\<close>: the promise is rejected with an error. The \<open>catch\<close> block
  reads two fields of the error it catches: \<open>code\<close> and whether \<open>response\<close> is set. A
  \<open>TypeError\<close> has neither.
\<close>

record caught_error =
  code :: "string option"
  response :: bool

datatype axios_outcome = Resolved "Match list" | Unreadable | Rejected caught_error

definition type_error :: caught_error where
  "type_error = \<lparr>code = None, response = False\<rparr>"

definition timeout_message :: string where
  "timeout_message = ''LanguageTool service is taking too long to respond. Please try again.''"

definition unavailable_message :: string where
  "unavailable_message = ''LanguageTool service is currently unavailable. Please try again later.''"

definition unreachable_message :: string where
  "unreachable_message = ''Unable to connect to grammar service. Using basic corrections instead.''"

text \<open>The \<open>catch\<close> block of \<open>correctWithLanguageTool\<close>: the message of the error it throws.\<close>

definition error_message :: "caught_error \<Rightarrow> string" where
  "error_message e =
     (if code e = Some ''ECONNABORTED'' then timeout_message
      else if response e then unavailable_message
      else unreachable_message)"

text \<open>\<open>Inl\<close> is the thrown \<open>Error\<close>, carrying its message; \<open>Inr\<close> the returned text.\<close>

definition correctWithLanguageTool :: "axios_outcome \<Rightarrow> string \<Rightarrow> string + string" where
  "correctWithLanguageTool outcome text =
     (case outcome of
        Resolved matches \<Rightarrow> Inr (apply_corrections text matches)
      | Unreadable \<Rightarrow> Inl (error_message type_error)
      | Rejected e \<Rightarrow> Inl (error_message e))"


section \<open>Spans of a list of findings\<close>

text \<open>
  The invariant of a finding against the text it was computed for, and two findings whose
  spans do not meet.
\<close>

definition in_bounds :: "string \<Rightarrow> Match \<Rightarrow> bool" where
  "in_bounds text m \<longleftrightarrow>
     0 \<le> offset m \<and> 0 < length_m m \<and> offset m + length_m m \<le> int (length text)"

definition disjoint_spans :: "Match \<Rightarrow> Match \<Rightarrow> bool" where
  "disjoint_spans a b \<longleftrightarrow>
     offset a + length_m a \<le> offset b \<or> offset b + length_m b \<le> offset a"

fun non_overlapping :: "Match list \<Rightarrow> bool" where
  "non_overlapping [] = True"
| "non_overlapping (m # ms) = (list_all (disjoint_spans m) ms \<and> non_overlapping ms)"

text \<open>
  The text with each span replaced, read from left to right: \<open>pos\<close> is the position in
  \<open>text\<close> reached so far and the findings are in ascending order of offset. The text
  between two spans is copied, a span with a candidate becomes the first candidate, a
  span with none is copied.
\<close>

fun replace_spans :: "string \<Rightarrow> nat \<Rightarrow> Match list \<Rightarrow> string" where
  "replace_spans text pos [] = drop pos text"
| "replace_spans text pos (m # ms) =
     take (nat (offset m) - pos) (drop pos text)
     @ (if replacements m = [] then take (nat (length_m m)) (drop (nat (offset m)) text)
        else hd (replacements m))
     @ replace_spans text (nat (offset m + length_m m)) ms"


section \<open>Regular expressions and \<open>String.prototype.replace\<close>\<close>

text \<open>
  The character classes of the patterns of the program: \<open>\s\<close> (white space and line
  terminators), \<open>\w\<close>, a bracketed list such as \<open>[.,!?]\<close> and the range \<open>[a-z]\<close>.
\<close>

definition is_space :: "char \<Rightarrow> bool" where
  "is_space c \<longleftrightarrow>
     c \<in> set [CHR 0x09, CHR 0x0A, CHR 0x0B, CHR 0x0C, CHR 0x0D, CHR 0x20, CHR 0xA0]"

definition between :: "char \<Rightarrow> char \<Rightarrow> char \<Rightarrow> bool" where
  "between lo hi c \<longleftrightarrow> lo \<le> c \<and> c \<le> hi"

definition is_word :: "char \<Rightarrow> bool" where
  "is_word c \<longleftrightarrow>
     c = CHR ''_'' \<or> between CHR ''0'' CHR ''9'' c \<or> between CHR ''A'' CHR ''Z'' c
     \<or> between CHR ''a'' CHR ''z'' c"

datatype char_class = Space | Word | OneOf string | Range char char

fun in_class :: "char_class \<Rightarrow> char \<Rightarrow> bool" where
  "in_class Space c = is_space c"
| "in_class Word c = is_word c"
| "in_class (OneOf cs) c = (c \<in> set cs)"
| "in_class (Range lo hi) c = between lo hi c"

text \<open>
  The two cases of a letter differ by \<open>0x20\<close>, which is bit 5 of the code unit: the
  upper-case form of a lower-case letter is the code unit with this bit cleared, the
  lower-case form of an upper-case letter the code unit with this bit set.
\<close>

definition clear_bit5 :: "char \<Rightarrow> char" where
  "clear_bit5 c =
     Char (digit0 c) (digit1 c) (digit2 c) (digit3 c) (digit4 c) False (digit6 c) (digit7 c)"

definition set_bit5 :: "char \<Rightarrow> char" where
  "set_bit5 c =
     Char (digit0 c) (digit1 c) (digit2 c) (digit3 c) (digit4 c) True (digit6 c) (digit7 c)"

text \<open>
  \<open>Canonicalize\<close> of a pattern without the \<open>u\<close> flag: the upper-case form of a code unit.
  Two code units match under the \<open>i\<close> flag when their canonical forms are equal. The two
  letters of the model whose upper-case form lies above \<open>0xFF\<close> (\<open>0xB5\<close>, \<open>0xFF\<close>) and
  \<open>0xDF\<close>, whose upper-case form is two code units, keep their own value, which no other
  code unit has as its canonical form.
\<close>

definition canonicalize :: "char \<Rightarrow> char" where
  "canonicalize c =
     (if between CHR ''a'' CHR ''z'' c \<or> between CHR 0xE0 CHR 0xFE c \<and> c \<noteq> CHR 0xF7
      then clear_bit5 c else c)"

text \<open>
  \<open>String.prototype.toLowerCase\<close> on the code units of the model, and
  \<open>String.prototype.toUpperCase\<close> on ASCII text: the program applies the latter to one
  captured letter of \<open>[a-z]\<close> only.
\<close>

definition lower_char :: "char \<Rightarrow> char" where
  "lower_char c =
     (if between CHR ''A'' CHR ''Z'' c \<or> between CHR 0xC0 CHR 0xDE c \<and> c \<noteq> CHR 0xD7
      then set_bit5 c else c)"

definition toLowerCase :: "string \<Rightarrow> string" where
  "toLowerCase s = map lower_char s"

definition upper_char :: "char \<Rightarrow> char" where
  "upper_char c = (if between CHR ''a'' CHR ''z'' c then clear_bit5 c else c)"

definition toUpperCase :: "string \<Rightarrow> string" where
  "toUpperCase s = map upper_char s"

text \<open>
  The patterns, as syntax trees. \<open>Lit\<close> is a pattern character of a pattern without the
  \<open>i\<close> flag and \<open>LitI\<close> one of a pattern with it; \<open>WordBoundary\<close> is \<open>\b\<close>, \<open>Start\<close> is
  \<open>^\<close>, \<open>Group n\<close> is the \<open>n\<close>-th pair of capturing parentheses, \<open>Star\<close> and \<open>Plus\<close> are
  the greedy \<open>*\<close> and \<open>+\<close>, which the program applies to character classes only.
\<close>

datatype regex =
    Eps
  | Lit char
  | LitI char
  | Class char_class
  | WordBoundary
  | Start
  | Seq regex regex
  | Alt regex regex
  | Group nat regex
  | Star char_class
  | Plus char_class

text \<open>
  The state of a match: the input to the left of the current position, last code unit
  first; the input from the current position on; the captures made so far.
\<close>

type_synonym captures = "nat \<rightharpoonup> string"
type_synonym mstate = "string \<times> string \<times> captures"

definition word_at :: "string \<Rightarrow> bool" where
  "word_at s = (case s of [] \<Rightarrow> False | c # _ \<Rightarrow> is_word c)"

text \<open>
  The backtracking matcher of the language definition, in continuation style: \<open>k\<close> is the
  rest of the pattern, and a branch that fails (\<open>None\<close>) hands over to the next choice.
  A greedy repetition first tries one more iteration and, when the rest of the pattern
  fails after it, continues from where it stands.
\<close>

fun star :: "char_class \<Rightarrow> mstate \<Rightarrow> (mstate \<Rightarrow> mstate option) \<Rightarrow> mstate option" where
  "star cl (b, [], caps) k = k (b, [], caps)"
| "star cl (b, x # xs, caps) k =
     (if in_class cl x then
        (case star cl (x # b, xs, caps) k of
           Some res \<Rightarrow> Some res
         | None \<Rightarrow> k (b, x # xs, caps))
      else k (b, x # xs, caps))"

fun step :: "(char \<Rightarrow> bool) \<Rightarrow> mstate \<Rightarrow> (mstate \<Rightarrow> mstate option) \<Rightarrow> mstate option" where
  "step p (b, [], caps) k = None"
| "step p (b, x # xs, caps) k = (if p x then k (x # b, xs, caps) else None)"

fun matcher :: "regex \<Rightarrow> mstate \<Rightarrow> (mstate \<Rightarrow> mstate option) \<Rightarrow> mstate option" where
  "matcher Eps st k = k st"
| "matcher (Lit c) st k = step (\<lambda>x. x = c) st k"
| "matcher (LitI c) st k = step (\<lambda>x. canonicalize x = canonicalize c) st k"
| "matcher (Class cl) st k = step (in_class cl) st k"
| "matcher WordBoundary (b, r, caps) k =
     (if word_at b \<noteq> word_at r then k (b, r, caps) else None)"
| "matcher Start (b, r, caps) k = (if b = [] then k (b, r, caps) else None)"
| "matcher (Seq p q) st k = matcher p st (\<lambda>st'. matcher q st' k)"
| "matcher (Alt p q) st k =
     (case matcher p st k of Some res \<Rightarrow> Some res | None \<Rightarrow> matcher q st k)"
| "matcher (Group n p) (b, r, caps) k =
     matcher p (b, r, caps)
       (\<lambda>(b', r', caps'). k (b', r', caps'(n \<mapsto> rev (take (length b' - length b) b'))))"
| "matcher (Star cl) st k = star cl st k"
| "matcher (Plus cl) st k = step (in_class cl) st (\<lambda>st'. star cl st' k)"

text \<open>A sequence of pattern characters under the \<open>i\<close> flag.\<close>

fun lits :: "string \<Rightarrow> regex" where
  "lits [] = Eps"
| "lits (c # cs) = Seq (LitI c) (lits cs)"

text \<open>
  The replacement of \<open>replace\<close>: a string, split at its \<open>$n\<close> references, or a function
  called with the matched text and the captures.
\<close>

datatype piece = Text string | Ref nat

datatype replacement = Template "piece list" | Function "string \<Rightarrow> captures \<Rightarrow> string"

fun expand :: "piece list \<Rightarrow> captures \<Rightarrow> string" where
  "expand [] caps = []"
| "expand (Text t # ps) caps = t @ expand ps caps"
| "expand (Ref n # ps) caps = (case caps n of Some t \<Rightarrow> t | None \<Rightarrow> []) @ expand ps caps"

fun substitution :: "replacement \<Rightarrow> string \<Rightarrow> captures \<Rightarrow> string" where
  "substitution (Template ps) matched caps = expand ps caps"
| "substitution (Function f) matched caps = f matched caps"

text \<open>
  \<open>replace\<close> with a pattern that has the \<open>g\<close> flag: the pattern is tried at each position
  from left to right; a match is replaced and the search goes on behind it, or one code
  unit further when the match is empty (the rest of the input is then no shorter); where
  the pattern does not match, the code unit is copied.
\<close>

fun replace_loop :: "regex \<Rightarrow> replacement \<Rightarrow> string \<Rightarrow> string \<Rightarrow> string" where
  "replace_loop re rp b r =
     (case matcher re (b, r, Map.empty) Some of
        Some (b', r', caps) \<Rightarrow>
          substitution rp (rev (take (length b' - length b) b')) caps
          @ (if length r' < length r then replace_loop re rp b' r'
             else (case r of [] \<Rightarrow> [] | x # xs \<Rightarrow> x # replace_loop re rp (x # b) xs))
      | None \<Rightarrow> (case r of [] \<Rightarrow> [] | x # xs \<Rightarrow> x # replace_loop re rp (x # b) xs))"

declare replace_loop.simps [simp del]

definition replace_global :: "regex \<Rightarrow> replacement \<Rightarrow> string \<Rightarrow> string" where
  "replace_global re rp s = replace_loop re rp [] s"

text \<open>\<open>String.prototype.trim\<close>.\<close>

definition trim :: "string \<Rightarrow> string" where
  "trim s = rev (dropWhile is_space (rev (dropWhile is_space s)))"


section \<open>The fallback corrector: \<open>enhancedFallbackCorrections\<close>\<close>

text \<open>
  The function of the \<open>their|there|they're\<close> entry; it is called with the matched text.
\<close>

definition pronoun :: "string \<Rightarrow> captures \<Rightarrow> string" where
  "pronoun match caps =
     (if toLowerCase match = ''their'' then ''their''
      else if toLowerCase match = ''there'' then ''there''
      else if toLowerCase match = ''they're'' then ''they're''
      else match)"

text \<open>
  \<open>\bX\b\<close>, and the table \<open>corrections\<close> in the order of its keys, each pattern compiled
  with the flags \<open>gi\<close>:
  \<^verbatim>\<open>\bi\b\<close>, \<^verbatim>\<open>\bme and\b\<close>, \<^verbatim>\<open>\b(alot)\b\<close>, \<^verbatim>\<open>\b(could|would|should) of\b\<close>,
  \<^verbatim>\<open>\b(their|there|they're)\b\<close>, \<^verbatim>\<open>\b(goes|goed)\b\<close>, \<^verbatim>\<open>\b(buyed)\b\<close>, \<^verbatim>\<open>\b(runned)\b\<close>,
  \<^verbatim>\<open>\b(recieve)\b\<close>, \<^verbatim>\<open>\b(seperate)\b\<close>, \<^verbatim>\<open>\b(definately)\b\<close>, \<^verbatim>\<open>\b(occured)\b\<close>.
\<close>

definition whole_word :: "regex \<Rightarrow> regex" where
  "whole_word re = Seq WordBoundary (Seq re WordBoundary)"

definition pronoun_pattern :: regex where
  "pronoun_pattern =
     whole_word (Group 1 (Alt (lits ''their'') (Alt (lits ''there'') (lits ''they're''))))"

text \<open>
  What the entry of the three pronouns does, said without a pattern. The word \<open>w\<close>, in
  lower case, stands as a whole word at the front of \<open>r\<close>, behind the text \<open>b\<close> (last code
  unit first), when no word character stands before it, \<open>r\<close> starts with \<open>w\<close> in whatever
  letter case, and no word character follows. \<open>lower_case_pronouns\<close> reads the text from
  left to right, writes a pronoun that stands as a whole word in lower case and goes on
  behind it, and copies every other code unit.
\<close>

definition whole_word_at :: "string \<Rightarrow> string \<Rightarrow> string \<Rightarrow> bool" where
  "whole_word_at w b r \<longleftrightarrow>
     \<not> word_at b \<and> length w \<le> length r \<and> toLowerCase (take (length w) r) = w
     \<and> \<not> word_at (drop (length w) r)"

fun lower_case_pronouns :: "string \<Rightarrow> string \<Rightarrow> string" where
  "lower_case_pronouns b [] = []"
| "lower_case_pronouns b (x # xs) =
     (if whole_word_at ''their'' b (x # xs) then
        ''their'' @ lower_case_pronouns (rev (take 5 (x # xs)) @ b) (drop 5 (x # xs))
      else if whole_word_at ''there'' b (x # xs) then
        ''there'' @ lower_case_pronouns (rev (take 5 (x # xs)) @ b) (drop 5 (x # xs))
      else if whole_word_at ''they're'' b (x # xs) then
        ''they're'' @ lower_case_pronouns (rev (take 7 (x # xs)) @ b) (drop 7 (x # xs))
      else x # lower_case_pronouns (x # b) xs)"

declare lower_case_pronouns.simps(2) [simp del]

definition corrections :: "(regex \<times> replacement) list" where
  "corrections =
     [(whole_word (lits ''i''), Template [Text ''I'']),
      (whole_word (lits ''me and''), Template [Text ''and I'']),
      (whole_word (Group 1 (lits ''alot'')), Template [Text ''a lot'']),
      (whole_word (Seq (Group 1 (Alt (lits ''could'') (Alt (lits ''would'') (lits ''should''))))
                       (lits '' of'')),
       Template [Ref 1, Text '' have'']),
      (pronoun_pattern, Function pronoun),
      (whole_word (Group 1 (Alt (lits ''goes'') (lits ''goed''))), Template [Text ''goes'']),
      (whole_word (Group 1 (lits ''buyed'')), Template [Text ''bought'']),
      (whole_word (Group 1 (lits ''runned'')), Template [Text ''ran'']),
      (whole_word (Group 1 (lits ''recieve'')), Template [Text ''receive'']),
      (whole_word (Group 1 (lits ''seperate'')), Template [Text ''separate'']),
      (whole_word (Group 1 (lits ''definately'')), Template [Text ''definitely'']),
      (whole_word (Group 1 (lits ''occured'')), Template [Text ''occurred''])]"

text \<open>The loop over the entries of the table.\<close>

definition apply_replacements :: "string \<Rightarrow> string" where
  "apply_replacements text =
     foldl (\<lambda>corrected (pattern, replacement). replace_global pattern replacement corrected)
       text corrections"

text \<open>
  The punctuation fixes, in the order of the source:
  \<^verbatim>\<open>replace(/\s+([.,!?])/g, '$1')\<close>, \<^verbatim>\<open>replace(/([.!?])\s*(\w)/g, '$1 $2')\<close> and
  \<^verbatim>\<open>replace(/\s+/g, ' ')\<close>.
\<close>

definition space_before_punctuation :: "string \<Rightarrow> string" where
  "space_before_punctuation s =
     replace_global (Seq (Plus Space) (Group 1 (Class (OneOf ''.,!?'')))) (Template [Ref 1]) s"

definition punctuation_then_word :: regex where
  "punctuation_then_word =
     Seq (Group 1 (Class (OneOf ''.!?''))) (Seq (Star Space) (Group 2 (Class Word)))"

definition space_after_punctuation :: "string \<Rightarrow> string" where
  "space_after_punctuation s =
     replace_global punctuation_then_word (Template [Ref 1, Text '' '', Ref 2]) s"

definition collapse_spaces :: "string \<Rightarrow> string" where
  "collapse_spaces s = replace_global (Plus Space) (Template [Text '' '']) s"

text \<open>
  \<^verbatim>\<open>replace(/(^\s*|[.!?]\s+)([a-z])/g, (match, p1, p2) => p1 + p2.toUpperCase())\<close>. Both
  groups take part in every match of the pattern.
\<close>

definition sentence_start :: regex where
  "sentence_start =
     Seq (Group 1 (Alt (Seq Start (Star Space)) (Seq (Class (OneOf ''.!?'')) (Plus Space))))
         (Group 2 (Class (Range CHR ''a'' CHR ''z'')))"

definition capitalize :: "string \<Rightarrow> captures \<Rightarrow> string" where
  "capitalize match caps = the (caps 1) @ toUpperCase (the (caps 2))"

definition capitalize_sentences :: "string \<Rightarrow> string" where
  "capitalize_sentences s = replace_global sentence_start (Function capitalize) s"

definition enhancedFallbackCorrections :: "string \<Rightarrow> string" where
  "enhancedFallbackCorrections text =
     (if text = [] then []
      else
        let corrected = apply_replacements text;
            corrected = space_before_punctuation corrected;
            corrected = space_after_punctuation corrected;
            corrected = collapse_spaces corrected;
            corrected = capitalize_sentences corrected
        in trim corrected)"


section \<open>The route \<open>POST /correct\<close>\<close>

text \<open>
  The data the route hands to the view, and the calls it makes to the two correctors.
  The field \<open>text\<close> of the request body is absent (\<open>None\<close>) or a string. The remote
  service is a function from the text sent to the outcome of the request.
\<close>

record view =
  corrected :: "string option"
  originalText :: string
  hasResult :: bool
  error :: "string option"

datatype call = RemoteCall string | FallbackCall string

definition empty_text_message :: string where
  "empty_text_message = ''Please enter some text to correct.''"

definition too_long_message :: string where
  "too_long_message = ''Text is too long. Please limit to 5000 characters.''"

definition post_correct :: "(string \<Rightarrow> axios_outcome) \<Rightarrow> string option \<Rightarrow> call list \<times> view" where
  "post_correct service body_text =
     (case body_text of
        None \<Rightarrow>
          ([], \<lparr>corrected = None, originalText = [], hasResult = False,
                error = Some empty_text_message\<rparr>)
      | Some text \<Rightarrow>
          if text = [] \<or> trim text = [] then
            ([], \<lparr>corrected = None, originalText = [], hasResult = False,
                  error = Some empty_text_message\<rparr>)
          else if length text > 5000 then
            ([], \<lparr>corrected = None, originalText = text, hasResult = False,
                  error = Some too_long_message\<rparr>)
          else
            (case correctWithLanguageTool (service text) text of
               Inr correctedText \<Rightarrow>
                 ([RemoteCall text],
                  \<lparr>corrected = Some correctedText, originalText = text, hasResult = True,
                   error = None\<rparr>)
             | Inl message \<Rightarrow>
                 ([RemoteCall text, FallbackCall text],
                  \<lparr>corrected = Some (enhancedFallbackCorrections text), originalText = text,
                   hasResult = True, error = Some message\<rparr>)))"


definition validation_error :: "view \<Rightarrow> bool" where
  "validation_error v \<longleftrightarrow>
     \<not> hasResult v \<and> corrected v = None
     \<and> (error v = Some empty_text_message \<or> error v = Some too_long_message)"


section \<open>Properties of the remote correction client\<close>

subsection \<open>Auxiliary facts\<close>

lemma slice_prefix: "0 \<le> i \<Longrightarrow> slice s 0 i = take (nat i) s"
  by (auto simp: slice_def rel_index_def Let_def min_def)

lemma slice_from_drop: "0 \<le> i \<Longrightarrow> slice_from s i = drop (nat i) s"
  by (auto simp: slice_from_def rel_index_def min_def)

lemma non_overlapping_insort:
  "non_overlapping (insort_key f x xs) = non_overlapping (x # xs)"
  by (induction xs) (auto simp: list_all_iff set_insort_key disjoint_spans_def)

lemma non_overlapping_sort: "non_overlapping (sort_key f xs) = non_overlapping xs"
  by (induction xs) (auto simp: non_overlapping_insort list_all_iff)

lemma foldl_foldr_rev: "foldl f a xs = foldr (\<lambda>x acc. f acc x) (rev xs) a"
  by (simp add: foldr_conv_foldl)

lemma splice_ascending:
  assumes "\<forall>m\<in>set asc. in_bounds text m" "non_overlapping asc" "sorted (map offset asc)"
    "\<forall>m\<in>set asc. int p \<le> offset m" "p \<le> length text"
  shows "foldr (\<lambda>m acc. apply_match acc m) asc text = take p text @ replace_spans text p asc"
  using assms
proof (induction asc arbitrary: p)
  case Nil
  then show ?case by simp
next
  case (Cons a as)
  let ?q = "nat (offset a + length_m a)"
  have a: "0 \<le> offset a" "0 < length_m a" "offset a + length_m a \<le> int (length text)"
    using Cons.prems(1) by (auto simp: in_bounds_def)
  have later: "\<forall>m\<in>set as. int ?q \<le> offset m"
  proof
    fix m assume m: "m \<in> set as"
    then have "disjoint_spans a m" "offset a \<le> offset m" "0 < length_m m"
      using Cons.prems(1,2,3) by (auto simp: list_all_iff in_bounds_def)
    then show "int ?q \<le> offset m" using a by (auto simp: disjoint_spans_def)
  qed
  have IH: "foldr (\<lambda>m acc. apply_match acc m) as text = take ?q text @ replace_spans text ?q as"
    using Cons.prems a later by (intro Cons.IH) auto
  have p: "p \<le> nat (offset a)" using Cons.prems(4) by auto
  have tk: "take (nat (offset a)) text = take p text @ take (nat (offset a) - p) (drop p text)"
    using p by (metis le_add_diff_inverse take_add)
  have tq: "take ?q text = take (nat (offset a)) text @ take (nat (length_m a)) (drop (nat (offset a)) text)"
    using a by (simp add: nat_add_distrib take_add)
  show ?case
  proof (cases "replacements a = []")
    case True
    then show ?thesis using IH tk tq by (simp add: apply_match_def)
  next
    case False
    have len: "length (take ?q text) = ?q" using a by auto
    have "slice (take ?q text @ replace_spans text ?q as) 0 (offset a) = take (nat (offset a)) text"
      using a len by (simp add: slice_prefix min_def)
    moreover have "slice_from (take ?q text @ replace_spans text ?q as) (offset a + length_m a)
        = replace_spans text ?q as"
      using a len by (simp add: slice_from_drop)
    ultimately show ?thesis using False IH tk by (simp add: apply_match_def Let_def)
  qed
qed


lemma offsets_distinct:
  "non_overlapping ms \<Longrightarrow> \<forall>m\<in>set ms. 0 < length_m m \<Longrightarrow> distinct (map offset ms)"
proof (induction ms)
  case Nil
  then show ?case by simp
next
  case (Cons a ms)
  have "offset a \<noteq> offset x" if "x \<in> set ms" for x
  proof -
    have "disjoint_spans a x" "0 < length_m a" "0 < length_m x"
      using Cons.prems that by (auto simp: list_all_iff)
    then show ?thesis by (auto simp: disjoint_spans_def)
  qed
  then show ?case using Cons by auto
qed

lemma sorted_rev_neg:
  fixes f :: "'a \<Rightarrow> int"
  shows "sorted (map (\<lambda>x. - f x) xs) \<Longrightarrow> sorted (map f (rev xs))"
  by (induction xs) (auto simp: sorted_append)

lemma rev_sort_matches:
  assumes "distinct (map offset ms)"
  shows "rev (sort_matches ms) = sort_key offset ms"
proof -
  let ?d = "rev (sort_matches ms)"
  have m: "mset ?d = mset ms" by (simp add: sort_matches_def)
  have "sorted (map (\<lambda>m. - offset m) (sort_matches ms))"
    unfolding sort_matches_def by (rule sorted_sort_key)
  then have s: "sorted (map offset ?d)"
    by (rule sorted_rev_neg)
  have d: "distinct (map offset ?d)"
  proof -
    have "mset (map offset ?d) = mset (map offset ms)"
      using m by (metis mset_map)
    then show ?thesis using assms by (metis mset_eq_imp_distinct_iff)
  qed
  have "map offset ?d = map offset (sort_key offset ms)"
  proof (rule sorted_distinct_set_unique)
    show "set (map offset ?d) = set (map offset (sort_key offset ms))"
      using m by (simp add: sort_matches_def)
  qed (use s d assms in \<open>auto simp: distinct_map\<close>)
  moreover have "inj_on offset (set ?d \<union> set (sort_key offset ms))"
    using assms by (simp add: distinct_map sort_matches_def)
  ultimately show ?thesis by (rule map_inj_on)
qed

subsection \<open>The claims\<close>

text \<open>
  Claim C1. For a text and findings that lie within the text (offset at least 0, length
  positive, offset + length at most the length of the text) and whose spans do not
  overlap pairwise, in whatever order the response lists them, the corrected text is the
  original text read from left to right with each span that has a candidate replaced by
  its first candidate, each span without candidate copied, and the text outside the
  spans copied.
\<close>

theorem splice_replaces_spans:
  assumes "\<forall>m\<in>set ms. in_bounds text m" and "non_overlapping ms"
  shows "apply_corrections text ms = replace_spans text 0 (sort_key offset ms)"
proof -
  let ?asc = "sort_key offset ms"
  have pos: "\<forall>m\<in>set ms. 0 < length_m m" "\<forall>m\<in>set ms. int 0 \<le> offset m"
    using assms(1) by (auto simp: in_bounds_def)
  have "rev (sort_matches ms) = ?asc"
    using assms(2) pos(1) by (intro rev_sort_matches offsets_distinct)
  then have "apply_corrections text ms = foldr (\<lambda>m acc. apply_match acc m) ?asc text"
    by (simp add: apply_corrections_def foldl_foldr_rev)
  also have "\<dots> = take 0 text @ replace_spans text 0 ?asc"
    using assms pos(2) by (intro splice_ascending) (simp_all add: non_overlapping_sort)
  finally show ?thesis by simp
qed

theorem splice_replaces_spans_witness:
  "list_all (in_bounds ''I has a apple'')
             [\<lparr>offset = 2, length_m = 3, replacements = [''have'']\<rparr>,
              \<lparr>offset = 8, length_m = 5, replacements = []\<rparr>,
              \<lparr>offset = 6, length_m = 1, replacements = [''an'', ''the'']\<rparr>]
   \<and> non_overlapping [\<lparr>offset = 2, length_m = 3, replacements = [''have'']\<rparr>,
              \<lparr>offset = 8, length_m = 5, replacements = []\<rparr>,
              \<lparr>offset = 6, length_m = 1, replacements = [''an'', ''the'']\<rparr>]
   \<and> apply_corrections ''I has a apple'' [\<lparr>offset = 2, length_m = 3, replacements = [''have'']\<rparr>,
              \<lparr>offset = 8, length_m = 5, replacements = []\<rparr>,
              \<lparr>offset = 6, length_m = 1, replacements = [''an'', ''the'']\<rparr>]
       = ''I have an apple''"
proof -
  let ?ms = "[\<lparr>offset = 2, length_m = 3, replacements = [''have'']\<rparr>,
              \<lparr>offset = 8, length_m = 5, replacements = []\<rparr>,
              \<lparr>offset = 6, length_m = 1, replacements = [''an'', ''the'']\<rparr>]"
  have b: "\<forall>m\<in>set ?ms. in_bounds ''I has a apple'' m"
    by (simp add: in_bounds_def)
  have n: "non_overlapping ?ms"
    by (simp add: disjoint_spans_def)
  have "replace_spans ''I has a apple'' 0 (sort_key offset ?ms) = ''I have an apple''"
    by simp
  with splice_replaces_spans [OF b n] b n show ?thesis by (simp add: list_all_iff)
qed

text \<open>
  Claim C5. Two findings at offsets 5 and 20 give the same corrected text in both orders
  of the list: the finding at offset 20 is applied first, then the one at offset 5.
\<close>

theorem splice_order_independent:
  assumes "offset a = 5" and "offset b = 20"
  shows "apply_corrections text [a, b] = apply_corrections text [b, a]
         \<and> apply_corrections text [a, b] = apply_match (apply_match text b) a"
  using assms by (simp add: apply_corrections_def sort_matches_def)

theorem splice_order_independent_witness:
  "offset \<lparr>offset = 5, length_m = 3, replacements = [''quick'']\<rparr> = 5
   \<and> offset \<lparr>offset = 20, length_m = 4, replacements = [''dog'']\<rparr> = 20
   \<and> apply_corrections ''The  qck brown fox. dogg jumps''
        [\<lparr>offset = 5, length_m = 3, replacements = [''quick'']\<rparr>,
         \<lparr>offset = 20, length_m = 4, replacements = [''dog'']\<rparr>]
     = apply_corrections ''The  qck brown fox. dogg jumps''
        [\<lparr>offset = 20, length_m = 4, replacements = [''dog'']\<rparr>,
         \<lparr>offset = 5, length_m = 3, replacements = [''quick'']\<rparr>]
   \<and> apply_corrections ''The  qck brown fox. dogg jumps''
        [\<lparr>offset = 5, length_m = 3, replacements = [''quick'']\<rparr>,
         \<lparr>offset = 20, length_m = 4, replacements = [''dog'']\<rparr>]
     = ''The  quick brown fox. dog jumps''"
proof -
  let ?a = "\<lparr>offset = 5, length_m = 3, replacements = [''quick'']\<rparr>"
  let ?b = "\<lparr>offset = 20, length_m = 4, replacements = [''dog'']\<rparr>"
  let ?text = "''The  qck brown fox. dogg jumps''"
  have a: "offset ?a = 5" and b: "offset ?b = 20"
    by simp_all
  note both = splice_order_independent [OF a b, of ?text]
  have "apply_match (apply_match ?text ?b) ?a = ''The  quick brown fox. dog jumps''"
    by (simp add: apply_match_def slice_def slice_from_def rel_index_def)
  with both [THEN conjunct2]
  have "apply_corrections ?text [?a, ?b] = ''The  quick brown fox. dog jumps''"
    by (rule trans)
  with a b both [THEN conjunct1] show ?thesis
    by (intro conjI)
qed

text \<open>
  The \<open>catch\<close> block maps every error it catches to one of three messages, by the two
  fields it reads, and the function throws the message to its caller.
\<close>

lemma error_message_cases:
  "(code e = Some ''ECONNABORTED'' \<longrightarrow> error_message e = timeout_message)
   \<and> (code e \<noteq> Some ''ECONNABORTED'' \<and> response e \<longrightarrow> error_message e = unavailable_message)
   \<and> (code e \<noteq> Some ''ECONNABORTED'' \<and> \<not> response e \<longrightarrow> error_message e = unreachable_message)
   \<and> correctWithLanguageTool (Rejected e) text = Inl (error_message e)
   \<and> distinct [timeout_message, unavailable_message, unreachable_message]"
  by (simp add: error_message_def correctWithLanguageTool_def timeout_message_def
      unavailable_message_def unreachable_message_def)

text \<open>
  Claim C8 does not hold of the code. When a response with a status of success arrives
  and its body holds no array \<open>matches\<close>, a response was received, yet the function throws
  the message of the service that cannot be reached, not the message of the service that
  is unavailable: the \<open>TypeError\<close> of line 38 is raised inside the \<open>try\<close> block and falls
  into the last branch of the \<open>catch\<close> block.
\<close>

theorem unreadable_body_reported_unreachable:
  "correctWithLanguageTool Unreadable text = Inl unreachable_message
   \<and> unreachable_message \<noteq> unavailable_message"
  by (simp add: correctWithLanguageTool_def error_message_def type_error_def
      unreachable_message_def unavailable_message_def)








section \<open>Properties of the matcher and of \<open>replace\<close>\<close>

text \<open>
  A successful match consumes a prefix of the rest of the input, keeps the captures it
  found, and hands the state behind the prefix to the continuation.
\<close>

lemma step_SomeD:
  "step p (b, r, caps) k = Some res \<Longrightarrow> \<exists>x xs. r = x # xs \<and> p x \<and> k (x # b, xs, caps) = Some res"
  by (cases r) (auto split: if_splits)

lemma star_runs:
  "star cl (b, r, caps) k = Some res \<Longrightarrow>
     \<exists>w r'. r = w @ r' \<and> k (rev w @ b, r', caps) = Some res"
proof (induction r arbitrary: b)
  case Nil
  then show ?case by simp
next
  case (Cons x xs)
  show ?case
  proof (cases "in_class cl x \<and> star cl (x # b, xs, caps) k \<noteq> None")
    case True
    then have "star cl (x # b, xs, caps) k = Some res"
      using Cons.prems by auto
    then obtain w r' where "xs = w @ r'" "k (rev w @ x # b, r', caps) = Some res"
      using Cons.IH by blast
    then have "x # xs = (x # w) @ r' \<and> k (rev (x # w) @ b, r', caps) = Some res"
      by simp
    then show ?thesis by blast
  next
    case False
    then have "k (b, x # xs, caps) = Some res"
      using Cons.prems by (auto split: if_splits option.splits)
    then have "x # xs = [] @ (x # xs) \<and> k (rev [] @ b, x # xs, caps) = Some res"
      by simp
    then show ?thesis by blast
  qed
qed

lemma matcher_runs:
  "matcher re (b, r, caps) k = Some res \<Longrightarrow>
     \<exists>w r' caps'. r = w @ r' \<and> dom caps \<subseteq> dom caps' \<and> k (rev w @ b, r', caps') = Some res"
proof (induction re arbitrary: b r caps k)
  case Eps
  then have "r = [] @ r \<and> dom caps \<subseteq> dom caps \<and> k (rev [] @ b, r, caps) = Some res"
    by simp
  then show ?case by blast
next
  case (Lit c)
  then have "step (\<lambda>x. x = c) (b, r, caps) k = Some res"
    by simp
  from step_SomeD [OF this] obtain x xs where "r = x # xs" "k (x # b, xs, caps) = Some res"
    by blast
  then have "r = [x] @ xs \<and> dom caps \<subseteq> dom caps \<and> k (rev [x] @ b, xs, caps) = Some res"
    by simp
  then show ?case by blast
next
  case (LitI c)
  then have "step (\<lambda>x. canonicalize x = canonicalize c) (b, r, caps) k = Some res"
    by simp
  from step_SomeD [OF this] obtain x xs where "r = x # xs" "k (x # b, xs, caps) = Some res"
    by blast
  then have "r = [x] @ xs \<and> dom caps \<subseteq> dom caps \<and> k (rev [x] @ b, xs, caps) = Some res"
    by simp
  then show ?case by blast
next
  case (Class cl)
  then have "step (in_class cl) (b, r, caps) k = Some res"
    by simp
  from step_SomeD [OF this] obtain x xs where "r = x # xs" "k (x # b, xs, caps) = Some res"
    by blast
  then have "r = [x] @ xs \<and> dom caps \<subseteq> dom caps \<and> k (rev [x] @ b, xs, caps) = Some res"
    by simp
  then show ?case by blast
next
  case WordBoundary
  then have "r = [] @ r \<and> dom caps \<subseteq> dom caps \<and> k (rev [] @ b, r, caps) = Some res"
    by (auto split: if_splits)
  then show ?case by blast
next
  case Start
  then have "r = [] @ r \<and> dom caps \<subseteq> dom caps \<and> k (rev [] @ b, r, caps) = Some res"
    by (auto split: if_splits)
  then show ?case by blast
next
  case (Seq p q)
  from Seq.prems have "matcher p (b, r, caps) (\<lambda>st'. matcher q st' k) = Some res"
    by simp
  from Seq.IH(1) [OF this] obtain w1 r1 caps1 where 1: "r = w1 @ r1" "dom caps \<subseteq> dom caps1"
      "matcher q (rev w1 @ b, r1, caps1) k = Some res"
    by blast
  from Seq.IH(2) [OF 1(3)] obtain w2 r2 caps2 where 2: "r1 = w2 @ r2" "dom caps1 \<subseteq> dom caps2"
      "k (rev w2 @ rev w1 @ b, r2, caps2) = Some res"
    by blast
  from 1 2 have "r = (w1 @ w2) @ r2 \<and> dom caps \<subseteq> dom caps2
      \<and> k (rev (w1 @ w2) @ b, r2, caps2) = Some res"
    by auto
  then show ?case by blast
next
  case (Alt p q)
  then have "matcher p (b, r, caps) k = Some res \<or> matcher q (b, r, caps) k = Some res"
    by (auto split: option.splits)
  then show ?case
  proof
    assume "matcher p (b, r, caps) k = Some res"
    from Alt.IH(1) [OF this] show ?thesis .
  next
    assume "matcher q (b, r, caps) k = Some res"
    from Alt.IH(2) [OF this] show ?thesis .
  qed
next
  case (Group n p)
  let ?k = "\<lambda>(b', r', caps'). k (b', r', caps'(n \<mapsto> rev (take (length b' - length b) b')))"
  from Group.prems have "matcher p (b, r, caps) ?k = Some res"
    by simp
  from Group.IH [OF this] obtain w r' caps' where g: "r = w @ r'" "dom caps \<subseteq> dom caps'"
      "?k (rev w @ b, r', caps') = Some res"
    by blast
  then have "r = w @ r' \<and> dom caps \<subseteq> dom (caps'(n \<mapsto> w))
      \<and> k (rev w @ b, r', caps'(n \<mapsto> w)) = Some res"
    by auto
  then show ?case by blast
next
  case (Star cl)
  then have "star cl (b, r, caps) k = Some res"
    by simp
  from star_runs [OF this] obtain w r' where "r = w @ r'" "k (rev w @ b, r', caps) = Some res"
    by blast
  then have "r = w @ r' \<and> dom caps \<subseteq> dom caps \<and> k (rev w @ b, r', caps) = Some res"
    by simp
  then show ?case by blast
next
  case (Plus cl)
  then have "step (in_class cl) (b, r, caps) (\<lambda>st'. star cl st' k) = Some res"
    by simp
  from step_SomeD [OF this] obtain x xs where x: "r = x # xs" "star cl (x # b, xs, caps) k = Some res"
    by blast
  from star_runs [OF x(2)] obtain w r' where "xs = w @ r'" "k (rev w @ x # b, r', caps) = Some res"
    by blast
  with x have "r = (x # w) @ r' \<and> dom caps \<subseteq> dom caps \<and> k (rev (x # w) @ b, r', caps) = Some res"
    by simp
  then show ?case by blast
qed

lemma matcher_Some:
  assumes "matcher re (b, r, Map.empty) Some = Some (b', r', caps)"
  shows "\<exists>w. r = w @ r' \<and> b' = rev w @ b \<and> rev (take (length b' - length b) b') = w"
proof -
  from matcher_runs [OF assms] obtain w where "r = w @ r'" "b' = rev w @ b"
    by auto
  then show ?thesis by auto
qed

text \<open>
  A replacement whose result for a match agrees with the matched text up to a map on code
  units leaves the text unchanged up to that map.
\<close>

lemma replace_loop_map:
  assumes sub: "\<And>m caps. map h (substitution rp m caps) = map h m"
  shows "map h (replace_loop re rp b r) = map h r"
proof (induction r arbitrary: b rule: length_induct)
  case (1 r)
  have rest: "map h (case r of [] \<Rightarrow> [] | x # xs \<Rightarrow> x # replace_loop re rp (x # b) xs) = map h r"
    using 1 by (cases r) auto
  show ?case
  proof (cases "matcher re (b, r, Map.empty) Some")
    case None
    then show ?thesis using rest by (subst replace_loop.simps) simp
  next
    case (Some st)
    obtain b' r' caps where st: "st = (b', r', caps)"
      by (cases st)
    from matcher_Some [OF Some [unfolded st]]
    obtain w where w: "r = w @ r'" "rev (take (length b' - length b) b') = w"
      by blast
    show ?thesis
    proof (cases "length r' < length r")
      case True
      then have "map h (replace_loop re rp b' r') = map h r'"
        using 1 by blast
      then show ?thesis using Some st w(1) True sub [of w caps]
        by (subst replace_loop.simps) (simp add: w(2))
    next
      case False
      then have "w = []" using w by simp
      then show ?thesis using Some st w(1) False rest sub [of "[]" caps]
        by (subst replace_loop.simps) (simp add: w(2))
    qed
  qed
qed

lemma toLowerCase_literals:
  "toLowerCase ''their'' = ''their''" "toLowerCase ''there'' = ''there''"
  "toLowerCase ''they're'' = ''they're''"
  by (simp_all add: toLowerCase_def lower_char_def between_def less_eq_char_def)

lemma toLowerCase_pronoun: "toLowerCase (pronoun m caps) = toLowerCase m"
  by (simp add: pronoun_def toLowerCase_literals)

text \<open>
  A greedy repetition stops behind the longest run of the class when the rest of the
  pattern cannot start with a code unit of the class.
\<close>

lemma star_greedy:
  assumes "\<And>b' x' xs'. in_class cl x' \<Longrightarrow> k (b', x' # xs', caps) = None"
  shows "star cl (b, xs, caps) k
         = k (rev (takeWhile (in_class cl) xs) @ b, dropWhile (in_class cl) xs, caps)"
proof (induction xs arbitrary: b)
  case Nil
  then show ?case by simp
next
  case (Cons x xs)
  show ?case
  proof (cases "in_class cl x")
    case True
    then show ?thesis
      using Cons [of "x # b"] assms [of x b xs]
      by (cases "k (rev (takeWhile (in_class cl) xs) @ x # b, dropWhile (in_class cl) xs, caps)")
         simp_all
  next
    case False
    then show ?thesis by simp
  qed
qed

lemma space_not_word: "is_space c \<Longrightarrow> \<not> is_word c"
  by (auto simp: is_space_def is_word_def between_def less_eq_char_def)

lemma punctuation_not_word: "c \<in> set ''.!?'' \<Longrightarrow> \<not> is_word c \<and> \<not> is_space c"
  by (auto simp: is_space_def is_word_def between_def less_eq_char_def)

lemma group_class:
  "matcher (Group n (Class cl)) (b, r, caps) k =
     (case r of
        [] \<Rightarrow> None
      | y # ys \<Rightarrow> if in_class cl y then k (y # b, ys, caps(n \<mapsto> [y])) else None)"
  by (cases r) simp_all

text \<open>
  The function of the last \<open>replace\<close> of the fallback corrector reads both groups: every
  match of the pattern has set them.
\<close>

lemma sentence_start_groups:
  assumes "matcher sentence_start (b, r, Map.empty) Some = Some (b', r', caps)"
  shows "caps 1 \<noteq> None \<and> caps 2 \<noteq> None"
proof -
  let ?first = "Alt (Seq Start (Star Space)) (Seq (Class (OneOf ''.!?'')) (Plus Space))"
  let ?k2 = "\<lambda>st'. matcher (Group 2 (Class (Range CHR ''a'' CHR ''z''))) st' Some"
  let ?k1 = "\<lambda>(b1, r1, c1). ?k2 (b1, r1, c1(1 \<mapsto> rev (take (length b1 - length b) b1)))"
  have "matcher ?first (b, r, Map.empty) ?k1 = Some (b', r', caps)"
    using assms by (simp add: sentence_start_def del: matcher.simps(4,8))
  from matcher_runs [OF this] obtain w r1 c1
    where "?k1 (rev w @ b, r1, c1) = Some (b', r', caps)"
    by blast
  then have "matcher (Group 2 (Class (Range CHR ''a'' CHR ''z'')))
       (rev w @ b, r1, c1(1 \<mapsto> w)) Some = Some (b', r', caps)"
    by simp
  then obtain y where "caps = (c1(1 \<mapsto> w))(2 \<mapsto> [y])"
    by (simp only: group_class) (auto split: list.splits if_splits)
  then show ?thesis by simp
qed


section \<open>Evaluation on concrete text\<close>

text \<open>
  The classes and the case maps on the letters, the digits and the punctuation marks that
  the examples use, and the equations that compute the correctors on a given text.
\<close>

lemma is_word_table:
  "is_word (CHR ''a'') = True" "is_word (CHR ''b'') = True" "is_word (CHR ''c'') = True"
  "is_word (CHR ''d'') = True" "is_word (CHR ''e'') = True" "is_word (CHR ''f'') = True"
  "is_word (CHR ''g'') = True" "is_word (CHR ''h'') = True" "is_word (CHR ''i'') = True"
  "is_word (CHR ''j'') = True" "is_word (CHR ''k'') = True" "is_word (CHR ''l'') = True"
  "is_word (CHR ''m'') = True" "is_word (CHR ''n'') = True" "is_word (CHR ''o'') = True"
  "is_word (CHR ''p'') = True" "is_word (CHR ''q'') = True" "is_word (CHR ''r'') = True"
  "is_word (CHR ''s'') = True" "is_word (CHR ''t'') = True" "is_word (CHR ''u'') = True"
  "is_word (CHR ''v'') = True" "is_word (CHR ''w'') = True" "is_word (CHR ''x'') = True"
  "is_word (CHR ''y'') = True" "is_word (CHR ''z'') = True" "is_word (CHR ''A'') = True"
  "is_word (CHR ''B'') = True" "is_word (CHR ''C'') = True" "is_word (CHR ''D'') = True"
  "is_word (CHR ''E'') = True" "is_word (CHR ''F'') = True" "is_word (CHR ''G'') = True"
  "is_word (CHR ''H'') = True" "is_word (CHR ''I'') = True" "is_word (CHR ''J'') = True"
  "is_word (CHR ''K'') = True" "is_word (CHR ''L'') = True" "is_word (CHR ''M'') = True"
  "is_word (CHR ''N'') = True" "is_word (CHR ''O'') = True" "is_word (CHR ''P'') = True"
  "is_word (CHR ''Q'') = True" "is_word (CHR ''R'') = True" "is_word (CHR ''S'') = True"
  "is_word (CHR ''T'') = True" "is_word (CHR ''U'') = True" "is_word (CHR ''V'') = True"
  "is_word (CHR ''W'') = True" "is_word (CHR ''X'') = True" "is_word (CHR ''Y'') = True"
  "is_word (CHR ''Z'') = True" "is_word (CHR ''0'') = True" "is_word (CHR ''1'') = True"
  "is_word (CHR ''2'') = True" "is_word (CHR ''3'') = True" "is_word (CHR ''4'') = True"
  "is_word (CHR ''5'') = True" "is_word (CHR ''6'') = True" "is_word (CHR ''7'') = True"
  "is_word (CHR ''8'') = True" "is_word (CHR ''9'') = True" "is_word (CHR '' '') = False"
  "is_word (CHR ''.'') = False" "is_word (CHR '','') = False" "is_word (CHR ''!'') = False"
  "is_word (CHR ''?'') = False" "is_word (CHR 0x27) = False"
  by (simp_all add: is_word_def between_def less_eq_char_def)

lemma is_space_table:
  "is_space (CHR ''a'') = False" "is_space (CHR ''b'') = False" "is_space (CHR ''c'') = False"
  "is_space (CHR ''d'') = False" "is_space (CHR ''e'') = False" "is_space (CHR ''f'') = False"
  "is_space (CHR ''g'') = False" "is_space (CHR ''h'') = False" "is_space (CHR ''i'') = False"
  "is_space (CHR ''j'') = False" "is_space (CHR ''k'') = False" "is_space (CHR ''l'') = False"
  "is_space (CHR ''m'') = False" "is_space (CHR ''n'') = False" "is_space (CHR ''o'') = False"
  "is_space (CHR ''p'') = False" "is_space (CHR ''q'') = False" "is_space (CHR ''r'') = False"
  "is_space (CHR ''s'') = False" "is_space (CHR ''t'') = False" "is_space (CHR ''u'') = False"
  "is_space (CHR ''v'') = False" "is_space (CHR ''w'') = False" "is_space (CHR ''x'') = False"
  "is_space (CHR ''y'') = False" "is_space (CHR ''z'') = False" "is_space (CHR ''A'') = False"
  "is_space (CHR ''B'') = False" "is_space (CHR ''C'') = False" "is_space (CHR ''D'') = False"
  "is_space (CHR ''E'') = False" "is_space (CHR ''F'') = False" "is_space (CHR ''G'') = False"
  "is_space (CHR ''H'') = False" "is_space (CHR ''I'') = False" "is_space (CHR ''J'') = False"
  "is_space (CHR ''K'') = False" "is_space (CHR ''L'') = False" "is_space (CHR ''M'') = False"
  "is_space (CHR ''N'') = False" "is_space (CHR ''O'') = False" "is_space (CHR ''P'') = False"
  "is_space (CHR ''Q'') = False" "is_space (CHR ''R'') = False" "is_space (CHR ''S'') = False"
  "is_space (CHR ''T'') = False" "is_space (CHR ''U'') = False" "is_space (CHR ''V'') = False"
  "is_space (CHR ''W'') = False" "is_space (CHR ''X'') = False" "is_space (CHR ''Y'') = False"
  "is_space (CHR ''Z'') = False" "is_space (CHR ''0'') = False" "is_space (CHR ''1'') = False"
  "is_space (CHR ''2'') = False" "is_space (CHR ''3'') = False" "is_space (CHR ''4'') = False"
  "is_space (CHR ''5'') = False" "is_space (CHR ''6'') = False" "is_space (CHR ''7'') = False"
  "is_space (CHR ''8'') = False" "is_space (CHR ''9'') = False" "is_space (CHR '' '') = True"
  "is_space (CHR ''.'') = False" "is_space (CHR '','') = False" "is_space (CHR ''!'') = False"
  "is_space (CHR ''?'') = False" "is_space (CHR 0x27) = False"
  by (simp_all add: is_space_def)

lemma canonicalize_table:
  "canonicalize (CHR ''a'') = CHR ''A''" "canonicalize (CHR ''b'') = CHR ''B''"
  "canonicalize (CHR ''c'') = CHR ''C''" "canonicalize (CHR ''d'') = CHR ''D''"
  "canonicalize (CHR ''e'') = CHR ''E''" "canonicalize (CHR ''f'') = CHR ''F''"
  "canonicalize (CHR ''g'') = CHR ''G''" "canonicalize (CHR ''h'') = CHR ''H''"
  "canonicalize (CHR ''i'') = CHR ''I''" "canonicalize (CHR ''j'') = CHR ''J''"
  "canonicalize (CHR ''k'') = CHR ''K''" "canonicalize (CHR ''l'') = CHR ''L''"
  "canonicalize (CHR ''m'') = CHR ''M''" "canonicalize (CHR ''n'') = CHR ''N''"
  "canonicalize (CHR ''o'') = CHR ''O''" "canonicalize (CHR ''p'') = CHR ''P''"
  "canonicalize (CHR ''q'') = CHR ''Q''" "canonicalize (CHR ''r'') = CHR ''R''"
  "canonicalize (CHR ''s'') = CHR ''S''" "canonicalize (CHR ''t'') = CHR ''T''"
  "canonicalize (CHR ''u'') = CHR ''U''" "canonicalize (CHR ''v'') = CHR ''V''"
  "canonicalize (CHR ''w'') = CHR ''W''" "canonicalize (CHR ''x'') = CHR ''X''"
  "canonicalize (CHR ''y'') = CHR ''Y''" "canonicalize (CHR ''z'') = CHR ''Z''"
  "canonicalize (CHR ''A'') = CHR ''A''" "canonicalize (CHR ''B'') = CHR ''B''"
  "canonicalize (CHR ''C'') = CHR ''C''" "canonicalize (CHR ''D'') = CHR ''D''"
  "canonicalize (CHR ''E'') = CHR ''E''" "canonicalize (CHR ''F'') = CHR ''F''"
  "canonicalize (CHR ''G'') = CHR ''G''" "canonicalize (CHR ''H'') = CHR ''H''"
  "canonicalize (CHR ''I'') = CHR ''I''" "canonicalize (CHR ''J'') = CHR ''J''"
  "canonicalize (CHR ''K'') = CHR ''K''" "canonicalize (CHR ''L'') = CHR ''L''"
  "canonicalize (CHR ''M'') = CHR ''M''" "canonicalize (CHR ''N'') = CHR ''N''"
  "canonicalize (CHR ''O'') = CHR ''O''" "canonicalize (CHR ''P'') = CHR ''P''"
  "canonicalize (CHR ''Q'') = CHR ''Q''" "canonicalize (CHR ''R'') = CHR ''R''"
  "canonicalize (CHR ''S'') = CHR ''S''" "canonicalize (CHR ''T'') = CHR ''T''"
  "canonicalize (CHR ''U'') = CHR ''U''" "canonicalize (CHR ''V'') = CHR ''V''"
  "canonicalize (CHR ''W'') = CHR ''W''" "canonicalize (CHR ''X'') = CHR ''X''"
  "canonicalize (CHR ''Y'') = CHR ''Y''" "canonicalize (CHR ''Z'') = CHR ''Z''"
  "canonicalize (CHR ''0'') = CHR ''0''" "canonicalize (CHR ''1'') = CHR ''1''"
  "canonicalize (CHR ''2'') = CHR ''2''" "canonicalize (CHR ''3'') = CHR ''3''"
  "canonicalize (CHR ''4'') = CHR ''4''" "canonicalize (CHR ''5'') = CHR ''5''"
  "canonicalize (CHR ''6'') = CHR ''6''" "canonicalize (CHR ''7'') = CHR ''7''"
  "canonicalize (CHR ''8'') = CHR ''8''" "canonicalize (CHR ''9'') = CHR ''9''"
  "canonicalize (CHR '' '') = CHR '' ''" "canonicalize (CHR ''.'') = CHR ''.''"
  "canonicalize (CHR '','') = CHR '',''" "canonicalize (CHR ''!'') = CHR ''!''"
  "canonicalize (CHR ''?'') = CHR ''?''" "canonicalize (CHR 0x27) = CHR 0x27"
  by (simp_all add: canonicalize_def clear_bit5_def between_def less_eq_char_def)

lemma lower_char_table:
  "lower_char (CHR ''a'') = CHR ''a''" "lower_char (CHR ''b'') = CHR ''b''"
  "lower_char (CHR ''c'') = CHR ''c''" "lower_char (CHR ''d'') = CHR ''d''"
  "lower_char (CHR ''e'') = CHR ''e''" "lower_char (CHR ''f'') = CHR ''f''"
  "lower_char (CHR ''g'') = CHR ''g''" "lower_char (CHR ''h'') = CHR ''h''"
  "lower_char (CHR ''i'') = CHR ''i''" "lower_char (CHR ''j'') = CHR ''j''"
  "lower_char (CHR ''k'') = CHR ''k''" "lower_char (CHR ''l'') = CHR ''l''"
  "lower_char (CHR ''m'') = CHR ''m''" "lower_char (CHR ''n'') = CHR ''n''"
  "lower_char (CHR ''o'') = CHR ''o''" "lower_char (CHR ''p'') = CHR ''p''"
  "lower_char (CHR ''q'') = CHR ''q''" "lower_char (CHR ''r'') = CHR ''r''"
  "lower_char (CHR ''s'') = CHR ''s''" "lower_char (CHR ''t'') = CHR ''t''"
  "lower_char (CHR ''u'') = CHR ''u''" "lower_char (CHR ''v'') = CHR ''v''"
  "lower_char (CHR ''w'') = CHR ''w''" "lower_char (CHR ''x'') = CHR ''x''"
  "lower_char (CHR ''y'') = CHR ''y''" "lower_char (CHR ''z'') = CHR ''z''"
  "lower_char (CHR ''A'') = CHR ''a''" "lower_char (CHR ''B'') = CHR ''b''"
  "lower_char (CHR ''C'') = CHR ''c''" "lower_char (CHR ''D'') = CHR ''d''"
  "lower_char (CHR ''E'') = CHR ''e''" "lower_char (CHR ''F'') = CHR ''f''"
  "lower_char (CHR ''G'') = CHR ''g''" "lower_char (CHR ''H'') = CHR ''h''"
  "lower_char (CHR ''I'') = CHR ''i''" "lower_char (CHR ''J'') = CHR ''j''"
  "lower_char (CHR ''K'') = CHR ''k''" "lower_char (CHR ''L'') = CHR ''l''"
  "lower_char (CHR ''M'') = CHR ''m''" "lower_char (CHR ''N'') = CHR ''n''"
  "lower_char (CHR ''O'') = CHR ''o''" "lower_char (CHR ''P'') = CHR ''p''"
  "lower_char (CHR ''Q'') = CHR ''q''" "lower_char (CHR ''R'') = CHR ''r''"
  "lower_char (CHR ''S'') = CHR ''s''" "lower_char (CHR ''T'') = CHR ''t''"
  "lower_char (CHR ''U'') = CHR ''u''" "lower_char (CHR ''V'') = CHR ''v''"
  "lower_char (CHR ''W'') = CHR ''w''" "lower_char (CHR ''X'') = CHR ''x''"
  "lower_char (CHR ''Y'') = CHR ''y''" "lower_char (CHR ''Z'') = CHR ''z''"
  "lower_char (CHR ''0'') = CHR ''0''" "lower_char (CHR ''1'') = CHR ''1''"
  "lower_char (CHR ''2'') = CHR ''2''" "lower_char (CHR ''3'') = CHR ''3''"
  "lower_char (CHR ''4'') = CHR ''4''" "lower_char (CHR ''5'') = CHR ''5''"
  "lower_char (CHR ''6'') = CHR ''6''" "lower_char (CHR ''7'') = CHR ''7''"
  "lower_char (CHR ''8'') = CHR ''8''" "lower_char (CHR ''9'') = CHR ''9''"
  "lower_char (CHR '' '') = CHR '' ''" "lower_char (CHR ''.'') = CHR ''.''"
  "lower_char (CHR '','') = CHR '',''" "lower_char (CHR ''!'') = CHR ''!''"
  "lower_char (CHR ''?'') = CHR ''?''" "lower_char (CHR 0x27) = CHR 0x27"
  by (simp_all add: lower_char_def set_bit5_def between_def less_eq_char_def)

lemma upper_char_table:
  "upper_char (CHR ''a'') = CHR ''A''" "upper_char (CHR ''b'') = CHR ''B''"
  "upper_char (CHR ''c'') = CHR ''C''" "upper_char (CHR ''d'') = CHR ''D''"
  "upper_char (CHR ''e'') = CHR ''E''" "upper_char (CHR ''f'') = CHR ''F''"
  "upper_char (CHR ''g'') = CHR ''G''" "upper_char (CHR ''h'') = CHR ''H''"
  "upper_char (CHR ''i'') = CHR ''I''" "upper_char (CHR ''j'') = CHR ''J''"
  "upper_char (CHR ''k'') = CHR ''K''" "upper_char (CHR ''l'') = CHR ''L''"
  "upper_char (CHR ''m'') = CHR ''M''" "upper_char (CHR ''n'') = CHR ''N''"
  "upper_char (CHR ''o'') = CHR ''O''" "upper_char (CHR ''p'') = CHR ''P''"
  "upper_char (CHR ''q'') = CHR ''Q''" "upper_char (CHR ''r'') = CHR ''R''"
  "upper_char (CHR ''s'') = CHR ''S''" "upper_char (CHR ''t'') = CHR ''T''"
  "upper_char (CHR ''u'') = CHR ''U''" "upper_char (CHR ''v'') = CHR ''V''"
  "upper_char (CHR ''w'') = CHR ''W''" "upper_char (CHR ''x'') = CHR ''X''"
  "upper_char (CHR ''y'') = CHR ''Y''" "upper_char (CHR ''z'') = CHR ''Z''"
  "upper_char (CHR ''A'') = CHR ''A''" "upper_char (CHR ''B'') = CHR ''B''"
  "upper_char (CHR ''C'') = CHR ''C''" "upper_char (CHR ''D'') = CHR ''D''"
  "upper_char (CHR ''E'') = CHR ''E''" "upper_char (CHR ''F'') = CHR ''F''"
  "upper_char (CHR ''G'') = CHR ''G''" "upper_char (CHR ''H'') = CHR ''H''"
  "upper_char (CHR ''I'') = CHR ''I''" "upper_char (CHR ''J'') = CHR ''J''"
  "upper_char (CHR ''K'') = CHR ''K''" "upper_char (CHR ''L'') = CHR ''L''"
  "upper_char (CHR ''M'') = CHR ''M''" "upper_char (CHR ''N'') = CHR ''N''"
  "upper_char (CHR ''O'') = CHR ''O''" "upper_char (CHR ''P'') = CHR ''P''"
  "upper_char (CHR ''Q'') = CHR ''Q''" "upper_char (CHR ''R'') = CHR ''R''"
  "upper_char (CHR ''S'') = CHR ''S''" "upper_char (CHR ''T'') = CHR ''T''"
  "upper_char (CHR ''U'') = CHR ''U''" "upper_char (CHR ''V'') = CHR ''V''"
  "upper_char (CHR ''W'') = CHR ''W''" "upper_char (CHR ''X'') = CHR ''X''"
  "upper_char (CHR ''Y'') = CHR ''Y''" "upper_char (CHR ''Z'') = CHR ''Z''"
  "upper_char (CHR ''0'') = CHR ''0''" "upper_char (CHR ''1'') = CHR ''1''"
  "upper_char (CHR ''2'') = CHR ''2''" "upper_char (CHR ''3'') = CHR ''3''"
  "upper_char (CHR ''4'') = CHR ''4''" "upper_char (CHR ''5'') = CHR ''5''"
  "upper_char (CHR ''6'') = CHR ''6''" "upper_char (CHR ''7'') = CHR ''7''"
  "upper_char (CHR ''8'') = CHR ''8''" "upper_char (CHR ''9'') = CHR ''9''"
  "upper_char (CHR '' '') = CHR '' ''" "upper_char (CHR ''.'') = CHR ''.''"
  "upper_char (CHR '','') = CHR '',''" "upper_char (CHR ''!'') = CHR ''!''"
  "upper_char (CHR ''?'') = CHR ''?''" "upper_char (CHR 0x27) = CHR 0x27"
  by (simp_all add: upper_char_def clear_bit5_def between_def less_eq_char_def)

lemma lower_case_letter_table:
  "in_class (Range CHR ''a'' CHR ''z'') (CHR ''a'') = True" "in_class (Range CHR ''a'' CHR ''z'') (CHR ''b'') = True"
  "in_class (Range CHR ''a'' CHR ''z'') (CHR ''c'') = True" "in_class (Range CHR ''a'' CHR ''z'') (CHR ''d'') = True"
  "in_class (Range CHR ''a'' CHR ''z'') (CHR ''e'') = True" "in_class (Range CHR ''a'' CHR ''z'') (CHR ''f'') = True"
  "in_class (Range CHR ''a'' CHR ''z'') (CHR ''g'') = True" "in_class (Range CHR ''a'' CHR ''z'') (CHR ''h'') = True"
  "in_class (Range CHR ''a'' CHR ''z'') (CHR ''i'') = True" "in_class (Range CHR ''a'' CHR ''z'') (CHR ''j'') = True"
  "in_class (Range CHR ''a'' CHR ''z'') (CHR ''k'') = True" "in_class (Range CHR ''a'' CHR ''z'') (CHR ''l'') = True"
  "in_class (Range CHR ''a'' CHR ''z'') (CHR ''m'') = True" "in_class (Range CHR ''a'' CHR ''z'') (CHR ''n'') = True"
  "in_class (Range CHR ''a'' CHR ''z'') (CHR ''o'') = True" "in_class (Range CHR ''a'' CHR ''z'') (CHR ''p'') = True"
  "in_class (Range CHR ''a'' CHR ''z'') (CHR ''q'') = True" "in_class (Range CHR ''a'' CHR ''z'') (CHR ''r'') = True"
  "in_class (Range CHR ''a'' CHR ''z'') (CHR ''s'') = True" "in_class (Range CHR ''a'' CHR ''z'') (CHR ''t'') = True"
  "in_class (Range CHR ''a'' CHR ''z'') (CHR ''u'') = True" "in_class (Range CHR ''a'' CHR ''z'') (CHR ''v'') = True"
  "in_class (Range CHR ''a'' CHR ''z'') (CHR ''w'') = True" "in_class (Range CHR ''a'' CHR ''z'') (CHR ''x'') = True"
  "in_class (Range CHR ''a'' CHR ''z'') (CHR ''y'') = True" "in_class (Range CHR ''a'' CHR ''z'') (CHR ''z'') = True"
  "in_class (Range CHR ''a'' CHR ''z'') (CHR ''A'') = False" "in_class (Range CHR ''a'' CHR ''z'') (CHR ''B'') = False"
  "in_class (Range CHR ''a'' CHR ''z'') (CHR ''C'') = False" "in_class (Range CHR ''a'' CHR ''z'') (CHR ''D'') = False"
  "in_class (Range CHR ''a'' CHR ''z'') (CHR ''E'') = False" "in_class (Range CHR ''a'' CHR ''z'') (CHR ''F'') = False"
  "in_class (Range CHR ''a'' CHR ''z'') (CHR ''G'') = False" "in_class (Range CHR ''a'' CHR ''z'') (CHR ''H'') = False"
  "in_class (Range CHR ''a'' CHR ''z'') (CHR ''I'') = False" "in_class (Range CHR ''a'' CHR ''z'') (CHR ''J'') = False"
  "in_class (Range CHR ''a'' CHR ''z'') (CHR ''K'') = False" "in_class (Range CHR ''a'' CHR ''z'') (CHR ''L'') = False"
  "in_class (Range CHR ''a'' CHR ''z'') (CHR ''M'') = False" "in_class (Range CHR ''a'' CHR ''z'') (CHR ''N'') = False"
  "in_class (Range CHR ''a'' CHR ''z'') (CHR ''O'') = False" "in_class (Range CHR ''a'' CHR ''z'') (CHR ''P'') = False"
  "in_class (Range CHR ''a'' CHR ''z'') (CHR ''Q'') = False" "in_class (Range CHR ''a'' CHR ''z'') (CHR ''R'') = False"
  "in_class (Range CHR ''a'' CHR ''z'') (CHR ''S'') = False" "in_class (Range CHR ''a'' CHR ''z'') (CHR ''T'') = False"
  "in_class (Range CHR ''a'' CHR ''z'') (CHR ''U'') = False" "in_class (Range CHR ''a'' CHR ''z'') (CHR ''V'') = False"
  "in_class (Range CHR ''a'' CHR ''z'') (CHR ''W'') = False" "in_class (Range CHR ''a'' CHR ''z'') (CHR ''X'') = False"
  "in_class (Range CHR ''a'' CHR ''z'') (CHR ''Y'') = False" "in_class (Range CHR ''a'' CHR ''z'') (CHR ''Z'') = False"
  "in_class (Range CHR ''a'' CHR ''z'') (CHR ''0'') = False" "in_class (Range CHR ''a'' CHR ''z'') (CHR ''1'') = False"
  "in_class (Range CHR ''a'' CHR ''z'') (CHR ''2'') = False" "in_class (Range CHR ''a'' CHR ''z'') (CHR ''3'') = False"
  "in_class (Range CHR ''a'' CHR ''z'') (CHR ''4'') = False" "in_class (Range CHR ''a'' CHR ''z'') (CHR ''5'') = False"
  "in_class (Range CHR ''a'' CHR ''z'') (CHR ''6'') = False" "in_class (Range CHR ''a'' CHR ''z'') (CHR ''7'') = False"
  "in_class (Range CHR ''a'' CHR ''z'') (CHR ''8'') = False" "in_class (Range CHR ''a'' CHR ''z'') (CHR ''9'') = False"
  "in_class (Range CHR ''a'' CHR ''z'') (CHR '' '') = False" "in_class (Range CHR ''a'' CHR ''z'') (CHR ''.'') = False"
  "in_class (Range CHR ''a'' CHR ''z'') (CHR '','') = False" "in_class (Range CHR ''a'' CHR ''z'') (CHR ''!'') = False"
  "in_class (Range CHR ''a'' CHR ''z'') (CHR ''?'') = False" "in_class (Range CHR ''a'' CHR ''z'') (CHR 0x27) = False"
  by (simp_all add: between_def less_eq_char_def)

lemmas evaluation =
  enhancedFallbackCorrections_def apply_replacements_def corrections_def pronoun_pattern_def
  whole_word_def space_before_punctuation_def punctuation_then_word_def
  space_after_punctuation_def collapse_spaces_def
  capitalize_sentences_def sentence_start_def capitalize_def replace_global_def trim_def
  word_at_def pronoun_def toLowerCase_def toUpperCase_def
  is_word_table is_space_table canonicalize_table lower_char_table upper_char_table
  lower_case_letter_table
  matcher.simps step.simps star.simps replace_loop.simps in_class.simps(1,2,3)
  expand.simps substitution.simps lits.simps
  list.case list.map foldl_Nil foldl_Cons rev.simps append.simps dropWhile.simps list.size
  take_Suc_Cons take_0 list.set insert_iff empty_iff list.inject list.distinct
  Let_def option.case option.sel prod.case if_True if_False simp_thms char.inject
  option.inject option.distinct fun_upd_apply rel_simps piece.case replacement.case
  Suc_less_eq diff_Suc_Suc diff_zero diff_0_eq_0 zero_less_Suc not_less0
  add_Suc_right add_0_right add_Suc add_0 nat.inject Suc_not_Zero Zero_not_Suc


section \<open>Properties of the fallback corrector\<close>

text \<open>
  Claim C2, as the specification states it, fails: the function of the
  \<open>their|there|they're\<close> entry returns the word in lower case, so the rule changes
  \<open>THEIR\<close> to \<open>their\<close>.
\<close>

theorem pronoun_rule_not_identity:
  "replace_global pronoun_pattern (Function pronoun) ''THEIR'' = ''their''
   \<and> replace_global pronoun_pattern (Function pronoun) ''THEIR'' \<noteq> ''THEIR''"
proof -
  have "replace_global pronoun_pattern (Function pronoun) ''THEIR'' = ''their''"
    by (simp only: evaluation cong: if_weak_cong option.case_cong_weak list.case_cong_weak)
  then show ?thesis by simp
qed

text \<open>
  The two case maps fold the same letters together, and a letter is a word character in
  both cases.
\<close>

lemma lower_canonicalize: "lower_char (canonicalize x) = lower_char x"
  by (cases x) (simp add: lower_char_def canonicalize_def set_bit5_def clear_bit5_def between_def less_eq_char_def)

lemma canonicalize_lower: "canonicalize (lower_char x) = canonicalize x"
  by (cases x) (simp add: lower_char_def canonicalize_def set_bit5_def clear_bit5_def between_def less_eq_char_def)

lemma is_word_lower: "is_word (lower_char x) = is_word x"
  by (cases x) (simp add: lower_char_def is_word_def set_bit5_def between_def less_eq_char_def)

lemma same_fold: "canonicalize x = canonicalize y \<longleftrightarrow> lower_char x = lower_char y"
  by (metis lower_canonicalize canonicalize_lower)

lemma same_fold_map:
  "map canonicalize u = map canonicalize w \<longleftrightarrow> map lower_char u = map lower_char w"
proof (induction u arbitrary: w)
  case Nil
  then show ?case by simp
next
  case (Cons x u)
  then show ?case by (cases w) (simp_all add: same_fold)
qed

lemma lits_match:
  "matcher (lits w) (b, r, caps) k =
     (if length w \<le> length r \<and> map canonicalize (take (length w) r) = map canonicalize w
      then k (rev (take (length w) r) @ b, drop (length w) r, caps) else None)"
proof (induction w arbitrary: b r)
  case Nil
  then show ?case by simp
next
  case (Cons c w)
  show ?case
  proof (cases r)
    case Nil
    then show ?thesis by simp
  next
    case (Cons x xs)
    then show ?thesis
      using Cons.IH [of "x # b" xs] by auto
  qed
qed

lemma lits_lower:
  assumes "toLowerCase w = w"
  shows "matcher (lits w) (b, r, caps) k =
     (if length w \<le> length r \<and> toLowerCase (take (length w) r) = w
      then k (rev (take (length w) r) @ b, drop (length w) r, caps) else None)"
  using assms by (simp add: lits_match same_fold_map toLowerCase_def)

text \<open>
  The pattern of the pronouns matches exactly where one of the three words stands as a
  whole word, and the match is that word as the text spells it.
\<close>

lemma spelled_front:
  assumes "toLowerCase (take (length w) r) = w" and "w \<noteq> []"
  shows "word_at r = is_word (hd w)"
proof (cases r)
  case Nil
  then show ?thesis using assms by (simp add: toLowerCase_def)
next
  case (Cons x xs)
  obtain c cs where w: "w = c # cs" using assms(2) by (cases w) auto
  then have "lower_char x = c"
    using assms(1) Cons by (simp add: toLowerCase_def)
  then show ?thesis
    using Cons w is_word_lower [of x] by (simp add: word_at_def)
qed

lemma spelled_back:
  assumes "toLowerCase (take (length w) r) = w" and "w \<noteq> []"
  shows "word_at (rev (take (length w) r) @ b) = is_word (last w)"
proof -
  have "take (length w) r \<noteq> []"
    using assms by (auto simp: toLowerCase_def)
  then obtain u l where u: "take (length w) r = u @ [l]"
    by (metis rev_exhaust)
  then have "last w = lower_char l"
    using assms(1) by (auto simp: toLowerCase_def)
  then show ?thesis
    using is_word_lower [of l] by (simp add: u word_at_def)
qed

lemma word_then_boundary:
  assumes lw: "toLowerCase w = w" and ne: "w \<noteq> []"
    and first_word: "is_word (hd w)" and last_word: "is_word (last w)"
    and boundary: "word_at b \<noteq> word_at r"
  shows "matcher (lits w) (b, r, Map.empty)
           (\<lambda>(b', r', caps'). matcher WordBoundary
              (b', r', caps'(1 \<mapsto> rev (take (length b' - length b) b'))) Some)
         = (if whole_word_at w b r
            then Some (rev (take (length w) r) @ b, drop (length w) r, [1 \<mapsto> take (length w) r])
            else None)"
proof (cases "length w \<le> length r \<and> toLowerCase (take (length w) r) = w")
  case False
  then show ?thesis
    using lw by (auto simp: lits_lower whole_word_at_def)
next
  case True
  then have front: "word_at r" and rear: "word_at (rev (take (length w) r) @ b)"
    using spelled_front [of w r] spelled_back [of w r b] ne first_word last_word by auto
  then have "\<not> word_at b" using boundary by simp
  then show ?thesis
    using True lw rear by (auto simp: lits_lower whole_word_at_def)
qed

lemma no_boundary_no_word:
  assumes "w \<noteq> []" and "is_word (hd w)" and "word_at b = word_at r"
  shows "\<not> whole_word_at w b r"
  using assms spelled_front [of w r] by (auto simp: whole_word_at_def)

lemma pronoun_facts:
  "toLowerCase ''their'' = ''their''" "toLowerCase ''there'' = ''there''"
  "toLowerCase ''they're'' = ''they're''"
  "is_word CHR ''t''" "is_word CHR ''r''" "is_word CHR ''e''"
  by (simp_all add: toLowerCase_def lower_char_def is_word_def between_def less_eq_char_def)

lemma pronoun_pattern_match:
  "matcher pronoun_pattern (b, r, Map.empty) Some =
     (if whole_word_at ''their'' b r then
        Some (rev (take 5 r) @ b, drop 5 r, [1 \<mapsto> take 5 r])
      else if whole_word_at ''there'' b r then
        Some (rev (take 5 r) @ b, drop 5 r, [1 \<mapsto> take 5 r])
      else if whole_word_at ''they're'' b r then
        Some (rev (take 7 r) @ b, drop 7 r, [1 \<mapsto> take 7 r])
      else None)"
proof (cases "word_at b = word_at r")
  case True
  then have "\<not> whole_word_at ''their'' b r" "\<not> whole_word_at ''there'' b r"
      "\<not> whole_word_at ''they're'' b r"
    by (simp_all add: no_boundary_no_word pronoun_facts)
  then show ?thesis
    using True by (simp add: pronoun_pattern_def whole_word_def)
next
  case False
  have len: "length ''their'' = 5" "length ''there'' = 5" "length ''they're'' = 7"
    by simp_all
  have their: "matcher (lits ''their'') (b, r, Map.empty)
           (\<lambda>(b', r', caps'). matcher WordBoundary
              (b', r', caps'(1 \<mapsto> rev (take (length b' - length b) b'))) Some)
         = (if whole_word_at ''their'' b r
            then Some (rev (take 5 r) @ b, drop 5 r, [1 \<mapsto> take 5 r]) else None)"
    using word_then_boundary [of "''their''" b r] False by (simp only: len) (simp add: pronoun_facts)
  have there: "matcher (lits ''there'') (b, r, Map.empty)
           (\<lambda>(b', r', caps'). matcher WordBoundary
              (b', r', caps'(1 \<mapsto> rev (take (length b' - length b) b'))) Some)
         = (if whole_word_at ''there'' b r
            then Some (rev (take 5 r) @ b, drop 5 r, [1 \<mapsto> take 5 r]) else None)"
    using word_then_boundary [of "''there''" b r] False by (simp only: len) (simp add: pronoun_facts)
  have theyre: "matcher (lits ''they're'') (b, r, Map.empty)
           (\<lambda>(b', r', caps'). matcher WordBoundary
              (b', r', caps'(1 \<mapsto> rev (take (length b' - length b) b'))) Some)
         = (if whole_word_at ''they're'' b r
            then Some (rev (take 7 r) @ b, drop 7 r, [1 \<mapsto> take 7 r]) else None)"
    using word_then_boundary [of "''they're''" b r] False by (simp only: len) (simp add: pronoun_facts)
  have "matcher pronoun_pattern (b, r, Map.empty) Some
        = (case matcher (lits ''their'') (b, r, Map.empty)
           (\<lambda>(b', r', caps'). matcher WordBoundary
              (b', r', caps'(1 \<mapsto> rev (take (length b' - length b) b'))) Some) of
             Some res \<Rightarrow> Some res
           | None \<Rightarrow>
              (case matcher (lits ''there'') (b, r, Map.empty)
           (\<lambda>(b', r', caps'). matcher WordBoundary
              (b', r', caps'(1 \<mapsto> rev (take (length b' - length b) b'))) Some) of
                Some res \<Rightarrow> Some res
              | None \<Rightarrow> matcher (lits ''they're'') (b, r, Map.empty)
           (\<lambda>(b', r', caps'). matcher WordBoundary
              (b', r', caps'(1 \<mapsto> rev (take (length b' - length b) b'))) Some)))"
    unfolding pronoun_pattern_def whole_word_def matcher.simps(7)
    by (subst matcher.simps(5)) (simp only: False simp_thms if_True matcher.simps(8,9))
  then show ?thesis
    by (simp only: their there theyre) simp
qed

lemma pronoun_their: "toLowerCase m = ''their'' \<Longrightarrow> pronoun m caps = ''their''"
  by (simp add: pronoun_def)

lemma pronoun_there: "toLowerCase m = ''there'' \<Longrightarrow> pronoun m caps = ''there''"
  by (simp add: pronoun_def)

lemma pronoun_theyre: "toLowerCase m = ''they're'' \<Longrightarrow> pronoun m caps = ''they're''"
  by (simp add: pronoun_def)

lemma pronoun_loop:
  "replace_loop pronoun_pattern (Function pronoun) b r = lower_case_pronouns b r"
proof (induction r arbitrary: b rule: length_induct)
  case (1 r)
  show ?case
  proof (cases r)
    case Nil
    have "\<not> whole_word_at ''their'' b []" "\<not> whole_word_at ''there'' b []"
        "\<not> whole_word_at ''they're'' b []"
      by (simp_all add: whole_word_at_def)
    then show ?thesis
      using Nil by (subst replace_loop.simps) (simp add: pronoun_pattern_match)
  next
    case (Cons x xs)
    have copy: "replace_loop pronoun_pattern (Function pronoun) (x # b) xs
        = lower_case_pronouns (x # b) xs"
      using 1 Cons by simp
    have skip: "replace_loop pronoun_pattern (Function pronoun) c (drop n r)
        = lower_case_pronouns c (drop n r)" if "0 < n" for c n
      using 1 Cons that by simp
    have scan: "lower_case_pronouns b r =
       (if whole_word_at ''their'' b r then
          ''their'' @ lower_case_pronouns (rev (take 5 r) @ b) (drop 5 r)
        else if whole_word_at ''there'' b r then
          ''there'' @ lower_case_pronouns (rev (take 5 r) @ b) (drop 5 r)
        else if whole_word_at ''they're'' b r then
          ''they're'' @ lower_case_pronouns (rev (take 7 r) @ b) (drop 7 r)
        else x # lower_case_pronouns (x # b) xs)"
      unfolding Cons by (rule lower_case_pronouns.simps(2))
    have matched: "rev (take (length (rev (take n r) @ b) - length b) (rev (take n r) @ b))
        = take n r" for n
      by simp
    consider (their) "whole_word_at ''their'' b r"
      | (there) "\<not> whole_word_at ''their'' b r" "whole_word_at ''there'' b r"
      | (theyre) "\<not> whole_word_at ''their'' b r" "\<not> whole_word_at ''there'' b r"
          "whole_word_at ''they're'' b r"
      | (none) "\<not> whole_word_at ''their'' b r" "\<not> whole_word_at ''there'' b r"
          "\<not> whole_word_at ''they're'' b r"
      by blast
    then show ?thesis
    proof cases
      case their
      then have "toLowerCase (take (length ''their'') r) = ''their''"
        by (simp only: whole_word_at_def)
      moreover have "length ''their'' = 5"
        by simp
      ultimately have m: "toLowerCase (take 5 r) = ''their''"
        by (simp only:)
      have shorter: "length (drop 5 r) < length r"
        using Cons by simp
      show ?thesis
        using their m shorter skip [of 5] Cons [symmetric]
        by (subst replace_loop.simps)
           (simp add: pronoun_pattern_match matched pronoun_their scan)
    next
      case there
      then have "toLowerCase (take (length ''there'') r) = ''there''"
        by (simp only: whole_word_at_def)
      moreover have "length ''there'' = 5"
        by simp
      ultimately have m: "toLowerCase (take 5 r) = ''there''"
        by (simp only:)
      have shorter: "length (drop 5 r) < length r"
        using Cons by simp
      show ?thesis
        using there m shorter skip [of 5] Cons [symmetric]
        by (subst replace_loop.simps)
           (simp add: pronoun_pattern_match matched pronoun_there scan)
    next
      case theyre
      then have "toLowerCase (take (length ''they're'') r) = ''they're''"
        by (simp only: whole_word_at_def)
      moreover have "length ''they're'' = 7"
        by simp
      ultimately have m: "toLowerCase (take 7 r) = ''they're''"
        by (simp only:)
      have shorter: "length (drop 7 r) < length r"
        using Cons by simp
      show ?thesis
        using theyre m shorter skip [of 7] Cons [symmetric]
        by (subst replace_loop.simps)
           (simp add: pronoun_pattern_match matched pronoun_theyre scan)
    next
      case none
      then show ?thesis
        using copy Cons
        by (subst replace_loop.simps)
           (simp add: pronoun_pattern_match lower_case_pronouns.simps(2))
    qed
  qed
qed

text \<open>
  Claim C2, amended. For every input the rule writes in lower case each of the words
  \<open>their\<close>, \<open>there\<close> and \<open>they're\<close> that stands as a whole word, in whatever letter case,
  and copies every other code unit; so the output is the input up to the case of its
  letters.
\<close>

theorem pronoun_rule_lower_case:
  "replace_global pronoun_pattern (Function pronoun) s = lower_case_pronouns [] s
   \<and> toLowerCase (replace_global pronoun_pattern (Function pronoun) s) = toLowerCase s"
proof
  show "replace_global pronoun_pattern (Function pronoun) s = lower_case_pronouns [] s"
    by (simp add: replace_global_def pronoun_loop)
  have "map lower_char (replace_loop pronoun_pattern (Function pronoun) [] s) = map lower_char s"
    using toLowerCase_pronoun by (intro replace_loop_map) (simp add: toLowerCase_def)
  then show "toLowerCase (replace_global pronoun_pattern (Function pronoun) s) = toLowerCase s"
    by (simp add: toLowerCase_def replace_global_def)
qed

theorem pronoun_rule_lower_case_witness:
  "replace_global pronoun_pattern (Function pronoun) ''THEIR dog is There, not theirs''
   = ''their dog is there, not theirs''"
proof -
  have "lower_case_pronouns [] ''THEIR dog is There, not theirs''
        = ''their dog is there, not theirs''"
    by (simp add: lower_case_pronouns.simps whole_word_at_def word_at_def toLowerCase_def
          is_word_table lower_char_table)
  with pronoun_rule_lower_case [of "''THEIR dog is There, not theirs''"] show ?thesis
    by (simp only:)
qed

text \<open>
  Claim C6. \<open>enhancedFallbackCorrections\<close> on \<open>hello world.  this is nice\<close>: one space is
  left behind the full stop and the first letter of each of the two sentences is a
  capital.
\<close>

theorem fallback_capitalizes_sentences:
  "enhancedFallbackCorrections ''hello world.  this is nice'' = ''Hello world. This is nice''"
  by (simp only: evaluation cong: if_weak_cong option.case_cong_weak list.case_cong_weak)

text \<open>
  Claim C7. \<open>enhancedFallbackCorrections\<close> on \<open>i recieve the seperate occured items\<close>: the
  entries of the table replace the four words and leave the others.
\<close>

theorem fallback_fixes_misspellings:
  "enhancedFallbackCorrections ''i recieve the seperate occured items''
   = ''I receive the separate occurred items''"
  by (simp only: evaluation cong: if_weak_cong option.case_cong_weak list.case_cong_weak)


text \<open>
  The second punctuation fix, code unit by code unit: a punctuation mark of \<open>[.!?]\<close>
  followed by white space (or none) and a word character keeps the mark and the
  character with one space between them; every other code unit is copied.
\<close>

lemma punctuation_then_word_match:
  "matcher punctuation_then_word (b, r, Map.empty) Some =
     (case r of
        [] \<Rightarrow> None
      | x # xs \<Rightarrow>
          if x \<in> set ''.!?'' then
            (case dropWhile is_space xs of
               [] \<Rightarrow> None
             | y # ys \<Rightarrow>
                 if is_word y
                 then Some (y # rev (takeWhile is_space xs) @ x # b, ys, [1 \<mapsto> [x], 2 \<mapsto> [y]])
                 else None)
          else None)"
proof (cases r)
  case Nil
  then show ?thesis by (simp add: punctuation_then_word_def)
next
  case (Cons x xs)
  show ?thesis
  proof (cases "x \<in> set ''.!?''")
    case False
    then show ?thesis using Cons by (simp add: punctuation_then_word_def)
  next
    case True
    let ?k = "\<lambda>st'. matcher (Group 2 (Class Word)) st' Some"
    have fail: "?k (b', x' # xs', [1 \<mapsto> [x]]) = None" if "in_class Space x'" for b' x' xs'
      using that by (simp only: group_class) (simp add: space_not_word)
    have cl: "in_class Space = is_space"
      by (simp add: fun_eq_iff)
    have "matcher punctuation_then_word (b, r, Map.empty) Some
          = star Space (x # b, xs, [1 \<mapsto> [x]]) ?k"
      using Cons True by (simp add: punctuation_then_word_def group_class del: matcher.simps(9))
    also have "\<dots> = ?k (rev (takeWhile is_space xs) @ x # b, dropWhile is_space xs, [1 \<mapsto> [x]])"
      using star_greedy [of Space ?k "[1 \<mapsto> [x]]" "x # b" xs, OF fail] by (simp only: cl)
    finally have "matcher punctuation_then_word (b, r, Map.empty) Some
          = ?k (rev (takeWhile is_space xs) @ x # b, dropWhile is_space xs, [1 \<mapsto> [x]])" .
    then show ?thesis
      using Cons True
      by (cases "dropWhile is_space xs") (simp_all add: group_class del: dropWhile_eq_Nil_conv matcher.simps)
  qed
qed

lemma gap_loop_Nil:
  "replace_loop punctuation_then_word rp b [] = []"
  by (subst replace_loop.simps) (simp add: punctuation_then_word_match)

lemma gap_loop_Cons:
  "replace_loop punctuation_then_word (Template [Ref 1, Text '' '', Ref 2]) b (x # xs) =
     (if x \<in> set ''.!?'' then
        (case dropWhile is_space xs of
           [] \<Rightarrow> x # replace_loop punctuation_then_word (Template [Ref 1, Text '' '', Ref 2]) (x # b) xs
         | y # ys \<Rightarrow>
             if is_word y then
               x # CHR '' '' # y
               # replace_loop punctuation_then_word (Template [Ref 1, Text '' '', Ref 2])
                   (y # rev (takeWhile is_space xs) @ x # b) ys
             else x # replace_loop punctuation_then_word (Template [Ref 1, Text '' '', Ref 2]) (x # b) xs)
      else x # replace_loop punctuation_then_word (Template [Ref 1, Text '' '', Ref 2]) (x # b) xs)"
proof -
  have shorter: "length ys < Suc (length xs)" if "dropWhile is_space xs = y # ys" for y ys
    using length_dropWhile_le [of is_space xs] that by simp
  show ?thesis
    by (subst replace_loop.simps)
       (auto simp: punctuation_then_word_match shorter split: list.splits
             simp del: dropWhile_eq_Nil_conv)
qed

lemma gap_loop_before:
  "replace_loop punctuation_then_word (Template [Ref 1, Text '' '', Ref 2]) b r
   = replace_loop punctuation_then_word (Template [Ref 1, Text '' '', Ref 2]) [] r"
proof (induction r arbitrary: b rule: length_induct)
  case (1 r)
  show ?case
  proof (cases r)
    case Nil
    then show ?thesis by (simp add: gap_loop_Nil)
  next
    case (Cons x xs)
    have tail: "replace_loop punctuation_then_word (Template [Ref 1, Text '' '', Ref 2]) c xs
        = replace_loop punctuation_then_word (Template [Ref 1, Text '' '', Ref 2]) [] xs" for c
    proof -
      have "length xs < length r"
        using Cons by simp
      then show ?thesis using 1 by blast
    qed
    have behind: "replace_loop punctuation_then_word (Template [Ref 1, Text '' '', Ref 2]) c ys
        = replace_loop punctuation_then_word (Template [Ref 1, Text '' '', Ref 2]) [] ys"
      if "dropWhile is_space xs = y # ys" for c y ys
    proof -
      have "length ys < length r"
        using length_dropWhile_le [of is_space xs] that Cons by simp
      then show ?thesis using 1 by blast
    qed
    show ?thesis
    proof (cases "dropWhile is_space xs")
      case Nil
      show ?thesis
        unfolding \<open>r = x # xs\<close> gap_loop_Cons [of b] gap_loop_Cons [of "[]"]
        by (simp only: Nil list.case tail [of "x # b"] tail [of "[x]"])
    next
      case (Cons y ys)
      show ?thesis
        unfolding \<open>r = x # xs\<close> gap_loop_Cons [of b] gap_loop_Cons [of "[]"]
        by (simp only: Cons list.case tail [of "x # b"] tail [of "[x]"]
              behind [OF Cons, of "y # rev (takeWhile is_space xs) @ x # b"]
              behind [OF Cons, of "y # rev (takeWhile is_space xs) @ [x]"])
    qed
  qed
qed

lemma space_after_punctuation_Nil: "space_after_punctuation [] = []"
  by (simp add: space_after_punctuation_def replace_global_def gap_loop_Nil)

lemma space_after_punctuation_Cons:
  "space_after_punctuation (x # xs) =
     (if x \<in> set ''.!?'' then
        (case dropWhile is_space xs of
           [] \<Rightarrow> x # space_after_punctuation xs
         | y # ys \<Rightarrow>
             if is_word y then x # CHR '' '' # y # space_after_punctuation ys
             else x # space_after_punctuation xs)
      else x # space_after_punctuation xs)"
  unfolding space_after_punctuation_def replace_global_def gap_loop_Cons [of "[]"]
  by (simp only: gap_loop_before [of "[x]"] gap_loop_before [of "_ # _ @ [x]"])

lemma space_after_punctuation_boundary:
  assumes p: "p \<in> set ''.!?''" and w: "is_word w"
  shows "space_after_punctuation (a @ p # w # rest)
         = space_after_punctuation a @ p # CHR '' '' # w # space_after_punctuation rest"
proof (induction a rule: length_induct)
  case (1 a)
  have pn: "\<not> is_word p" "\<not> is_space p"
    using p punctuation_not_word by blast+
  have wn: "\<not> is_space w"
    using w space_not_word by blast
  show ?case
  proof (cases a)
    case Nil
    have "dropWhile is_space (w # rest) = w # rest"
      using wn by simp
    then show ?thesis
      using Nil p w
      by (simp only: append_Nil space_after_punctuation_Cons [of p] space_after_punctuation_Nil
            if_True list.case)
  next
    case (Cons x xs)
    let ?sfx = "p # w # rest"
    have IH: "space_after_punctuation (ys @ ?sfx)
        = space_after_punctuation ys @ p # CHR '' '' # w # space_after_punctuation rest"
      if "length ys \<le> length xs" for ys
      using 1 that Cons by simp
    show ?thesis
    proof (cases "dropWhile is_space xs")
      case Nil
      then have "\<forall>c\<in>set xs. is_space c"
        by (simp add: dropWhile_eq_Nil_conv)
      then have "dropWhile is_space (xs @ ?sfx) = ?sfx"
        using pn by (simp add: dropWhile_append2)
      then show ?thesis
        unfolding \<open>a = x # xs\<close> append_Cons
          space_after_punctuation_Cons [of x "xs @ ?sfx"] space_after_punctuation_Cons [of x xs]
        using Nil pn IH [of xs]
        by (cases "x \<in> set ''.!?''")
           (simp_all del: dropWhile_eq_Nil_conv dropWhile_append)
    next
      case (Cons y ys)
      then have "y \<in> set xs" "\<not> is_space y"
        using set_dropWhileD [of y is_space xs] hd_dropWhile [of is_space xs] by auto
      then have d: "dropWhile is_space (xs @ ?sfx) = y # ys @ ?sfx"
        using Cons by (simp add: dropWhile_append1)
      have "length ys \<le> length xs"
        using length_dropWhile_le [of is_space xs] Cons by simp
      then show ?thesis
        unfolding \<open>a = x # xs\<close> append_Cons
          space_after_punctuation_Cons [of x "xs @ ?sfx"] space_after_punctuation_Cons [of x xs]
        using Cons IH [of xs] IH [of ys]
        by (cases "x \<in> set ''.!?''")
           (simp_all add: d del: dropWhile_eq_Nil_conv dropWhile_append)
    qed
  qed
qed

text \<open>
  Claim C9. Where a punctuation mark of \<open>[.!?]\<close> is followed at once by a word character,
  the second punctuation fix puts one space between the two, whatever stands before the
  mark and behind the character; so \<open>enhancedFallbackCorrections\<close> turns \<open>3.14\<close> into
  \<open>3. 14\<close>.
\<close>

theorem space_inserted_after_punctuation:
  "(p \<in> set ''.!?'' \<and> is_word w \<longrightarrow>
      space_after_punctuation (a @ p # w # rest)
      = space_after_punctuation a @ p # CHR '' '' # w # space_after_punctuation rest)
   \<and> enhancedFallbackCorrections ''3.14'' = ''3. 14''"
proof
  show "p \<in> set ''.!?'' \<and> is_word w \<longrightarrow>
      space_after_punctuation (a @ p # w # rest)
      = space_after_punctuation a @ p # CHR '' '' # w # space_after_punctuation rest"
    using space_after_punctuation_boundary by blast
  show "enhancedFallbackCorrections ''3.14'' = ''3. 14''"
    by (simp only: evaluation cong: if_weak_cong option.case_cong_weak list.case_cong_weak)
qed

theorem space_inserted_after_punctuation_witness:
  "CHR ''!'' \<in> set ''.!?'' \<and> is_word CHR ''o''
   \<and> space_after_punctuation ''hi!ok'' = ''hi! ok''"
proof -
  have p: "CHR ''!'' \<in> set ''.!?''" and w: "is_word CHR ''o''"
    by (simp_all only: evaluation)
  have a: "space_after_punctuation ''hi'' = ''hi''" and r: "space_after_punctuation ''k'' = ''k''"
    by (simp_all only: evaluation cong: if_weak_cong option.case_cong_weak list.case_cong_weak)
  from space_inserted_after_punctuation [of "CHR ''!''" "CHR ''o''" "''hi''" "''k''"] p w
  have "space_after_punctuation (''hi'' @ CHR ''!'' # CHR ''o'' # ''k'')
        = space_after_punctuation ''hi'' @ CHR ''!'' # CHR '' '' # CHR ''o'' # space_after_punctuation ''k''"
    by blast
  then have "space_after_punctuation ''hi!ok'' = ''hi! ok''"
    by (simp only: a r append.simps)
  with p w show ?thesis by (intro conjI)
qed


section \<open>Properties of the route\<close>

lemma trim_Nil_iff: "trim s = [] \<longleftrightarrow> (\<forall>c\<in>set s. is_space c)"
proof
  assume "trim s = []"
  then have all: "\<forall>c\<in>set (dropWhile is_space s). is_space c"
    by (simp add: trim_def dropWhile_eq_Nil_conv)
  have "dropWhile is_space s = []"
  proof (cases "dropWhile is_space s")
    case (Cons x xs)
    then have "\<not> is_space x" using hd_dropWhile [of is_space s] by simp
    with all Cons show ?thesis by simp
  qed simp
  then show "\<forall>c\<in>set s. is_space c"
    by (simp add: dropWhile_eq_Nil_conv)
next
  assume "\<forall>c\<in>set s. is_space c"
  then show "trim s = []"
    by (auto simp: trim_def dest: set_dropWhileD)
qed

lemma trim_letters: "0 < n \<Longrightarrow> trim (replicate n CHR ''a'') \<noteq> []"
  by (simp add: trim_Nil_iff is_space_def)



text \<open>
  Claim C4. The route answers with a validation error exactly when the trimmed text is
  empty or the text has more than 5000 code units, and it then calls neither corrector.
  A text of 5000 letters \<open>a\<close> passes the checks, a text of 5001 does not.
\<close>

theorem validation_error_iff:
  "(validation_error (snd (post_correct service (Some text)))
      \<longleftrightarrow> trim text = [] \<or> 5000 < length text)
   \<and> (validation_error (snd (post_correct service (Some text)))
      \<longrightarrow> fst (post_correct service (Some text)) = [])
   \<and> \<not> validation_error (snd (post_correct service (Some (replicate 5000 CHR ''a''))))
   \<and> validation_error (snd (post_correct service (Some (replicate 5001 CHR ''a''))))"
proof -
  have nil: "t = [] \<Longrightarrow> trim t = []" for t
    by (simp add: trim_def)
  have iff: "validation_error (snd (post_correct service (Some t)))
      \<longleftrightarrow> trim t = [] \<or> 5000 < length t" for t
    using nil [of t]
    by (auto simp: post_correct_def validation_error_def split: sum.splits)
  have calls: "validation_error (snd (post_correct service (Some text)))
      \<longrightarrow> fst (post_correct service (Some text)) = []"
    by (auto simp: post_correct_def validation_error_def split: sum.splits)
  show ?thesis
    using calls trim_letters [of 5000] trim_letters [of 5001]
    by (simp add: iff)
qed

theorem validation_error_iff_witness:
  "validation_error (snd (post_correct (\<lambda>t. Resolved []) (Some ''   '')))
   \<and> fst (post_correct (\<lambda>t. Resolved []) (Some ''   '')) = []
   \<and> trim ''   '' = []"
proof -
  have "trim ''   '' = []"
    by (simp only: evaluation cong: if_weak_cong option.case_cong_weak list.case_cong_weak)
  with validation_error_iff [of "\<lambda>t. Resolved []" "''   ''"] show ?thesis
    by (simp only: simp_thms)
qed

end
